theory Spec2Isabelle
  imports Complex_Main "HOL-Library.Word"
begin

section \<open>JavaScript values\<close>

text \<open>
  A JavaScript string is a sequence of UTF-16 code units. The regular expression
  class \<open>\s\<close> and \<open>String.length\<close> work on code units, so the model keeps them.
\<close>

type_synonym jschar = "16 word"
type_synonym jsstring = "jschar list"

text \<open>An ASCII string literal of the source, as code units.\<close>

definition js :: "string \<Rightarrow> jsstring" where
  "js s = map of_char s"

text \<open>
  A number is an IEEE double. No handler computes with a number of the request: numbers
  are tested for truthiness and handed on. \<open>Finite r\<close> is a finite double of value
  \<open>r\<close> (the two zeros are not told apart).
\<close>

datatype jsnum = Finite rat | PosInf | NegInf | NaN

datatype jsval =
    Undefined
  | Null
  | Bool bool
  | Num jsnum
  | Str jsstring
  | Arr "jsval list"
  | Obj "(jsstring \<times> jsval) list"

text \<open>ToBoolean: what \<open>!x\<close>, \<open>x || y\<close> and \<open>c ? a : b\<close> test.\<close>

fun truthy :: "jsval \<Rightarrow> bool" where
  "truthy Undefined = False"
| "truthy Null = False"
| "truthy (Bool b) = b"
| "truthy (Num (Finite r)) = (r \<noteq> 0)"
| "truthy (Num PosInf) = True"
| "truthy (Num NegInf) = True"
| "truthy (Num NaN) = False"
| "truthy (Str s) = (s \<noteq> [])"
| "truthy (Arr xs) = True"
| "truthy (Obj kvs) = True"

text \<open>\<open>a || b\<close>\<close>

definition js_or :: "jsval \<Rightarrow> jsval \<Rightarrow> jsval" where
  "js_or a b = (if truthy a then a else b)"

text \<open>
  A destructuring default or a default parameter (\<open>x = d\<close>): the default is taken
  exactly when the value is \<open>undefined\<close>.
\<close>

definition default_to :: "jsval \<Rightarrow> jsval \<Rightarrow> jsval" where
  "default_to v d = (if v = Undefined then d else v)"

datatype error = TypeError | Rejected

text \<open>
  Reading property \<open>k\<close> of a value. Reading from \<open>null\<close> or \<open>undefined\<close> throws.
  An object parsed from JSON holds its own keys (the first binding of the list is the
  key's value); strings and arrays have \<open>length\<close>. The handlers read only the names
  written in the source, none of which is an index or an inherited property.
\<close>

fun get_prop :: "jsval \<Rightarrow> jsstring \<Rightarrow> error + jsval" where
  "get_prop Undefined k = Inl TypeError"
| "get_prop Null k = Inl TypeError"
| "get_prop (Obj kvs) k = Inr (case map_of kvs k of Some v \<Rightarrow> v | None \<Rightarrow> Undefined)"
| "get_prop (Arr xs) k =
     Inr (if k = js ''length'' then Num (Finite (of_nat (length xs))) else Undefined)"
| "get_prop (Str s) k =
     Inr (if k = js ''length'' then Num (Finite (of_nat (length s))) else Undefined)"
| "get_prop (Bool b) k = Inr Undefined"
| "get_prop (Num n) k = Inr Undefined"

text \<open>\<open>v?.k\<close>\<close>

definition opt_prop :: "jsval \<Rightarrow> jsstring \<Rightarrow> jsval" where
  "opt_prop v k = (case get_prop v k of Inl e \<Rightarrow> Undefined | Inr x \<Rightarrow> x)"

text \<open>\<open>xs[i]\<close> on an array: \<open>undefined\<close> out of range.\<close>

definition js_index :: "jsval list \<Rightarrow> nat \<Rightarrow> jsval" where
  "js_index xs i = (if i < length xs then xs ! i else Undefined)"

text \<open>\<open>Array.prototype.slice(start, end)\<close>, negative indices counted from the end.\<close>

definition js_slice :: "'a list \<Rightarrow> int \<Rightarrow> int \<Rightarrow> 'a list" where
  "js_slice xs start end =
     (let n = int (length xs);
          k = (if start < 0 then max (n + start) 0 else min start n);
          f = (if end < 0 then max (n + end) 0 else min end n)
      in take (nat (f - k)) (drop (nat k) xs))"

text \<open>\<open>Array.prototype.join(sep)\<close> on an array of strings.\<close>

fun js_join :: "jsstring \<Rightarrow> jsstring list \<Rightarrow> jsstring" where
  "js_join sep [] = []"
| "js_join sep [w] = w"
| "js_join sep (w # v # ws) = w @ sep @ js_join sep (v # ws)"

section \<open>Splitting on whitespace\<close>

text \<open>
  The class \<open>\s\<close> of a regular expression without the \<open>u\<close> flag: the code units of
  WhiteSpace and LineTerminator.
\<close>

definition is_ws :: "jschar \<Rightarrow> bool" where
  "is_ws c \<longleftrightarrow>
     c = 0x9 \<or> c = 0xA \<or> c = 0xB \<or> c = 0xC \<or> c = 0xD \<or> c = 0x20 \<or> c = 0xA0 \<or>
     c = 0x1680 \<or> (0x2000 \<le> c \<and> c \<le> 0x200A) \<or> c = 0x2028 \<or> c = 0x2029 \<or>
     c = 0x202F \<or> c = 0x205F \<or> c = 0x3000 \<or> c = 0xFEFF"

text \<open>
  \<open>s.split(/\s+/)\<close> on a non-empty rest: \<open>cur\<close> is the piece read since the last
  separator. A separator is a maximal run of whitespace; a separator at the start or at
  the end of the text leaves an empty piece there.
\<close>

function split_from :: "jsstring \<Rightarrow> jsstring \<Rightarrow> jsstring list" where
  "split_from cur [] = [cur]"
| "split_from cur (c # cs) =
     (if is_ws c then cur # split_from [] (dropWhile is_ws cs)
      else split_from (cur @ [c]) cs)"
  by pat_completeness auto
termination
  by (relation "measure (\<lambda>(cur, s). length s)")
     (auto simp: le_imp_less_Suc length_dropWhile_le)

definition split_ws :: "jsstring \<Rightarrow> jsstring list" where
  "split_ws s = split_from [] s"

text \<open>\<open>text.split(/\s+/).filter(Boolean)\<close>: the empty pieces are dropped.\<close>

definition words_of :: "jsstring \<Rightarrow> jsstring list" where
  "words_of s = filter (\<lambda>w. truthy (Str w)) (split_ws s)"

section \<open>Chunk profiles\<close>

record chunk_config =
  sizeWords :: int
  overlapWords :: int

definition getChunkConfig :: "jsval \<Rightarrow> chunk_config" where
  "getChunkConfig profile0 =
     (let profile = default_to profile0 (Str (js ''default'')) in
      if profile = Str (js ''short_form'') then \<lparr>sizeWords = 400, overlapWords = 60\<rparr>
      else if profile = Str (js ''long_book'') then \<lparr>sizeWords = 1400, overlapWords = 180\<rparr>
      else \<lparr>sizeWords = 900, overlapWords = 120\<rparr>)"

section \<open>The chunker\<close>

text \<open>
  One pass through the body of the \<open>while\<close> loop of \<open>chunkText\<close>, entered with
  \<open>start < words.length\<close>: the window is pushed, then the loop either breaks or goes
  on from the new start.
\<close>

datatype step = Break "jsstring list" | Continue int "jsstring list"

definition chunk_step :: "chunk_config \<Rightarrow> jsstring list \<Rightarrow> int \<Rightarrow> jsstring list \<Rightarrow> step" where
  "chunk_step cfg words start chunks =
     (let end = min (start + sizeWords cfg) (int (length words));
          chunkWords = js_slice words start end;
          chunks' = chunks @ [js_join (js '' '') chunkWords]
      in if end = int (length words) then Break chunks'
         else Continue (end - overlapWords cfg) chunks')"

text \<open>The loop. It may run forever: \<open>None\<close> is the loop that never returns.\<close>

partial_function (option) chunk_loop ::
  "chunk_config \<Rightarrow> jsstring list \<Rightarrow> int \<Rightarrow> jsstring list \<Rightarrow> jsstring list option" where
  "chunk_loop cfg words start chunks =
     (if start < int (length words) then
        (case chunk_step cfg words start chunks of
           Break chunks' \<Rightarrow> Some chunks'
         | Continue start' chunks' \<Rightarrow> chunk_loop cfg words start' chunks')
      else Some chunks)"

declare chunk_loop.simps [code]

text \<open>
  The body of \<open>chunkText\<close> once the profile is resolved; \<open>None\<close> when it does not
  return, \<open>Some (Inl TypeError)\<close> when \<open>text.split\<close> is not a function.
\<close>

definition chunk_words :: "chunk_config \<Rightarrow> jsstring list \<Rightarrow> jsstring list option" where
  "chunk_words cfg words =
     (if length words = 0 then Some []
      else if int (length words) \<le> sizeWords cfg then Some [js_join (js '' '') words]
      else chunk_loop cfg words 0 [])"

definition chunk_with :: "chunk_config \<Rightarrow> jsval \<Rightarrow> (error + jsstring list) option" where
  "chunk_with cfg text =
     (case text of
        Str s \<Rightarrow> map_option Inr (chunk_words cfg (words_of s))
      | _ \<Rightarrow> Some (Inl TypeError))"

definition chunkText :: "jsval \<Rightarrow> jsval \<Rightarrow> (error + jsstring list) option" where
  "chunkText text profile0 =
     (let profile = default_to profile0 (Str (js ''default''))
      in chunk_with (getChunkConfig profile) text)"

section \<open>The external services\<close>

text \<open>
  The embedding provider and the store are outside the program. Each is a function from
  the argument of the call to its reply, \<open>None\<close> when the call rejects or throws.
  A handler returns its response and the calls it made, in order.
\<close>

record env =
  embeddings_create :: "jsval \<Rightarrow> jsval option"
  kb_insert :: "jsval \<Rightarrow> jsval option"
  match_kb_chunks :: "jsval \<Rightarrow> jsval option"

datatype call = EmbeddingsCreate jsval | Insert jsval | Rpc jsval

datatype response = Response (status: nat) (payload: jsval)

text \<open>\<open>const { a, b } = v\<close>: throws on \<open>null\<close> and \<open>undefined\<close>, else reads each name.\<close>

definition destructure :: "jsval \<Rightarrow> error + (jsstring \<Rightarrow> jsval)" where
  "destructure v =
     (if v = Undefined \<or> v = Null then Inl TypeError else Inr (opt_prop v))"

fun collect :: "(error + 'a) list \<Rightarrow> error + 'a list" where
  "collect [] = Inr []"
| "collect (Inl e # rs) = Inl e"
| "collect (Inr x # rs) = (case collect rs of Inl e \<Rightarrow> Inl e | Inr xs \<Rightarrow> Inr (x # xs))"

text \<open>\<open>v.map(x => x.k)\<close>: only an array has \<open>map\<close>.\<close>

definition map_prop :: "jsval \<Rightarrow> jsstring \<Rightarrow> error + jsval list" where
  "map_prop v k =
     (case v of Arr xs \<Rightarrow> collect (map (\<lambda>x. get_prop x k) xs) | _ \<Rightarrow> Inl TypeError)"

definition embed_request :: "jsval \<Rightarrow> jsval" where
  "embed_request input =
     Obj [(js ''model'', Str (js ''text-embedding-3-small'')), (js ''input'', input)]"

definition embedText :: "env \<Rightarrow> jsval \<Rightarrow> error + jsval list" where
  "embedText e input =
     (case embeddings_create e (embed_request input) of
        None \<Rightarrow> Inl Rejected
      | Some response \<Rightarrow>
          (case get_prop response (js ''data'') of
             Inl err \<Rightarrow> Inl err
           | Inr d \<Rightarrow> map_prop d (js ''embedding'')))"

definition error_response :: "nat \<Rightarrow> string \<Rightarrow> response" where
  "error_response code msg = Response code (Obj [(js ''error'', Str (js msg))])"

text \<open>The \<open>catch\<close> of every handler: whatever was thrown, the answer is a 500.\<close>

definition catch_all :: "(error + response) \<times> call list \<Rightarrow> response \<times> call list" where
  "catch_all r =
     (case r of
        (Inl err, calls) \<Rightarrow> (error_response 500 ''Internal error'', calls)
      | (Inr resp, calls) \<Rightarrow> (resp, calls))"

section \<open>The handler of POST /ingest_content\<close>

definition ingest_row ::
  "jsval \<Rightarrow> jsval \<Rightarrow> jsval \<Rightarrow> jsval \<Rightarrow> jsval \<Rightarrow> jsval list \<Rightarrow> jsstring \<times> nat \<Rightarrow> jsval" where
  "ingest_row course type subtopic assignment_type source_name embeddings ci =
     Obj [(js ''course'', course),
          (js ''type'', type),
          (js ''subtopic'', subtopic),
          (js ''assignment_type'', assignment_type),
          (js ''source_name'', source_name),
          (js ''chunk_index'', Num (Finite (of_nat (snd ci)))),
          (js ''content'', Str (fst ci)),
          (js ''embedding'', js_index embeddings (snd ci))]"

definition ingest_try :: "env \<Rightarrow> jsval \<Rightarrow> ((error + response) \<times> call list) option" where
  "ingest_try e body =
     (case destructure body of
        Inl err \<Rightarrow> Some (Inl err, [])
      | Inr field \<Rightarrow>
          let course = field (js ''course'');
              type = field (js ''type'');
              subtopic = field (js ''subtopic'');
              assignment_type = field (js ''assignment_type'');
              chunk_profile = default_to (field (js ''chunk_profile'')) (Str (js ''default''));
              raw_text = field (js ''raw_text'');
              source_name = field (js ''source_name'')
          in
          if \<not> truthy raw_text \<or> \<not> truthy course \<or> \<not> truthy type then
            Some (Inr (error_response 400 ''Missing required fields: course, type, raw_text''), [])
          else
            (case chunkText raw_text chunk_profile of
               None \<Rightarrow> None
             | Some (Inl err) \<Rightarrow> Some (Inl err, [])
             | Some (Inr chunks) \<Rightarrow>
                 if length chunks = 0 then
                   Some (Inr (error_response 400 ''No content produced''), [])
                 else
                   let input = Arr (map Str chunks);
                       calls1 = [EmbeddingsCreate (embed_request input)]
                   in
                   (case embedText e input of
                      Inl err \<Rightarrow> Some (Inl err, calls1)
                    | Inr embeddings \<Rightarrow>
                        let rows = Arr (map (ingest_row course type subtopic assignment_type
                                               source_name embeddings)
                                          (zip chunks [0 ..< length chunks]));
                            calls2 = calls1 @ [Insert rows]
                        in
                        (case kb_insert e rows of
                           None \<Rightarrow> Some (Inl Rejected, calls2)
                         | Some reply \<Rightarrow>
                             (case destructure reply of
                                Inl err \<Rightarrow> Some (Inl err, calls2)
                              | Inr got \<Rightarrow>
                                  if truthy (got (js ''error'')) then
                                    Some (Inr (error_response 500 ''Insert failed''), calls2)
                                  else
                                    (case map_prop (got (js ''data'')) (js ''id'') of
                                       Inl err \<Rightarrow> Some (Inl err, calls2)
                                     | Inr ids \<Rightarrow>
                                         Some (Inr (Response 200
                                           (Obj [(js ''success'', Bool True),
                                                 (js ''chunks_stored'',
                                                    Num (Finite (of_nat (length chunks)))),
                                                 (js ''ids'', Arr ids)])), calls2)))))))"

definition ingest_content :: "env \<Rightarrow> jsval \<Rightarrow> (response \<times> call list) option" where
  "ingest_content e body = map_option catch_all (ingest_try e body)"

section \<open>The handler of POST /search_content\<close>

text \<open>The double written \<open>0.7\<close>.\<close>

definition double_0_7 :: rat where
  "double_0_7 = 3152519739159347 / 4503599627370496"

definition search_args ::
  "jsval \<Rightarrow> jsval \<Rightarrow> jsval \<Rightarrow> jsval \<Rightarrow> jsval \<Rightarrow> jsval \<Rightarrow> jsval \<Rightarrow> jsval" where
  "search_args queryEmbedding course types subtopic assignment_type top_k threshold =
     Obj [(js ''query_embedding'', queryEmbedding),
          (js ''match_course'', js_or course Null),
          (js ''match_types'', if truthy (opt_prop types (js ''length'')) then types else Null),
          (js ''match_subtopic'', js_or subtopic Null),
          (js ''match_assignment_type'', js_or assignment_type Null),
          (js ''match_limit'', top_k),
          (js ''match_threshold'', threshold)]"

definition search_try :: "env \<Rightarrow> jsval \<Rightarrow> (error + response) \<times> call list" where
  "search_try e body =
     (case destructure body of
        Inl err \<Rightarrow> (Inl err, [])
      | Inr field \<Rightarrow>
          let course = field (js ''course'');
              query = field (js ''query'');
              types = field (js ''types'');
              subtopic = field (js ''subtopic'');
              assignment_type = field (js ''assignment_type'');
              top_k = default_to (field (js ''top_k'')) (Num (Finite 8));
              threshold = default_to (field (js ''threshold'')) (Num (Finite double_0_7))
          in
          if \<not> truthy query then (Inr (error_response 400 ''Missing query text''), [])
          else
            let calls1 = [EmbeddingsCreate (embed_request query)] in
            (case embedText e query of
               Inl err \<Rightarrow> (Inl err, calls1)
             | Inr embeddings \<Rightarrow>
                 let queryEmbedding = js_index embeddings 0;
                     args = search_args queryEmbedding course types subtopic assignment_type
                              top_k threshold;
                     calls2 = calls1 @ [Rpc args]
                 in
                 (case match_kb_chunks e args of
                    None \<Rightarrow> (Inl Rejected, calls2)
                  | Some reply \<Rightarrow>
                      (case destructure reply of
                         Inl err \<Rightarrow> (Inl err, calls2)
                       | Inr got \<Rightarrow>
                           if truthy (got (js ''error'')) then
                             (Inr (error_response 500 ''Search failed''), calls2)
                           else
                             (Inr (Response 200
                                (Obj [(js ''success'', Bool True),
                                      (js ''results'', js_or (got (js ''data'')) (Arr []))])),
                              calls2)))))"

definition search_content :: "env \<Rightarrow> jsval \<Rightarrow> response \<times> call list" where
  "search_content e body = catch_all (search_try e body)"

section \<open>The handler of POST /log_completion_result\<close>

text \<open>\<open>v[0]\<close>: throws on \<open>null\<close> and \<open>undefined\<close>.\<close>

fun elem0 :: "jsval \<Rightarrow> error + jsval" where
  "elem0 Undefined = Inl TypeError"
| "elem0 Null = Inl TypeError"
| "elem0 (Arr xs) = Inr (js_index xs 0)"
| "elem0 (Obj kvs) = Inr (case map_of kvs (js ''0'') of Some v \<Rightarrow> v | None \<Rightarrow> Undefined)"
| "elem0 (Str s) = Inr (case s of [] \<Rightarrow> Undefined | c # cs \<Rightarrow> Str [c])"
| "elem0 (Bool b) = Inr Undefined"
| "elem0 (Num n) = Inr Undefined"

definition completion_row ::
  "jsval \<Rightarrow> jsval \<Rightarrow> jsval \<Rightarrow> jsval \<Rightarrow> jsval \<Rightarrow> jsval \<Rightarrow> jsval \<Rightarrow> jsval \<Rightarrow> jsval \<Rightarrow>
   jsval \<Rightarrow> jsval" where
  "completion_row course type subtopic assignment_type original_prompt model_answer outcome
     score teacher_feedback answerEmbedding =
     Obj [(js ''course'', course),
          (js ''type'', type),
          (js ''subtopic'', subtopic),
          (js ''assignment_type'', assignment_type),
          (js ''original_prompt'', original_prompt),
          (js ''model_answer'', model_answer),
          (js ''outcome'', outcome),
          (js ''score'', score),
          (js ''teacher_feedback'', teacher_feedback),
          (js ''chunk_index'', Num (Finite 0)),
          (js ''content'', model_answer),
          (js ''embedding'', answerEmbedding)]"

definition log_try :: "env \<Rightarrow> jsval \<Rightarrow> (error + response) \<times> call list" where
  "log_try e body =
     (case destructure body of
        Inl err \<Rightarrow> (Inl err, [])
      | Inr field \<Rightarrow>
          let course = field (js ''course'');
              assignment_type = field (js ''assignment_type'');
              subtopic = field (js ''subtopic'');
              original_prompt = field (js ''original_prompt'');
              model_answer = field (js ''model_answer'');
              outcome = field (js ''outcome'');
              score = field (js ''score'');
              teacher_feedback = field (js ''teacher_feedback'')
          in
          if \<not> truthy course \<or> \<not> truthy assignment_type \<or> \<not> truthy model_answer
               \<or> \<not> truthy outcome then
            (Inr (error_response 400 ''Missing required fields''), [])
          else
            let type = (if outcome = Str (js ''success'') then Str (js ''completion_good'')
                        else Str (js ''completion_bad''));
                calls1 = [EmbeddingsCreate (embed_request model_answer)]
            in
            (case embedText e model_answer of
               Inl err \<Rightarrow> (Inl err, calls1)
             | Inr embeddings \<Rightarrow>
                 let answerEmbedding = js_index embeddings 0;
                     row = completion_row course type subtopic assignment_type original_prompt
                             model_answer outcome score teacher_feedback answerEmbedding;
                     calls2 = calls1 @ [Insert row]
                 in
                 (case kb_insert e row of
                    None \<Rightarrow> (Inl Rejected, calls2)
                  | Some reply \<Rightarrow>
                      (case destructure reply of
                         Inl err \<Rightarrow> (Inl err, calls2)
                       | Inr got \<Rightarrow>
                           if truthy (got (js ''error'')) then
                             (Inr (error_response 500 ''Insert failed''), calls2)
                           else
                             (case elem0 (got (js ''data'')) of
                                Inl err \<Rightarrow> (Inl err, calls2)
                              | Inr d0 \<Rightarrow>
                                  (Inr (Response 200
                                     (Obj [(js ''success'', Bool True),
                                           (js ''id'', opt_prop d0 (js ''id''))])),
                                   calls2))))))"

definition log_completion_result :: "env \<Rightarrow> jsval \<Rightarrow> response \<times> call list" where
  "log_completion_result e body = catch_all (log_try e body)"

section \<open>The specification's reading of the chunker\<close>

text \<open>
  The specification's words for the text of a chunk: the words are the maximal runs of
  characters that are not whitespace, and the normalized text is these words with one
  space between neighbours.
\<close>

function words_spec :: "jsstring \<Rightarrow> jsstring list" where
  "words_spec s =
     (case dropWhile is_ws s of
        [] \<Rightarrow> []
      | c # cs \<Rightarrow> takeWhile (\<lambda>x. \<not> is_ws x) (c # cs)
                 # words_spec (dropWhile (\<lambda>x. \<not> is_ws x) (c # cs)))"
  by pat_completeness auto
termination
proof (relation "measure length")
  show "wf (measure length)" by simp
next
  fix s :: jsstring and c cs
  assume a: "dropWhile is_ws s = c # cs"
  have "\<not> is_ws c" using a hd_dropWhile[of is_ws s] by auto
  then have "dropWhile (\<lambda>x. \<not> is_ws x) (c # cs) = dropWhile (\<lambda>x. \<not> is_ws x) cs" by simp
  moreover have "length (dropWhile (\<lambda>x. \<not> is_ws x) cs) \<le> length cs"
    by (rule length_dropWhile_le)
  moreover have "length (c # cs) \<le> length s"
    using length_dropWhile_le[of is_ws s] a by simp
  ultimately show "(dropWhile (\<lambda>x. \<not> is_ws x) (c # cs), s) \<in> measure length"
    by simp
qed

declare words_spec.simps [simp del]

definition normalize_spec :: "jsstring \<Rightarrow> jsstring" where
  "normalize_spec s = js_join (js '' '') (words_spec s)"

text \<open>
  A window is a pair of word indices \<open>(start, end)\<close>; its text is the words from
  \<open>start\<close> up to, not including, \<open>end\<close>, joined with single spaces.
\<close>

definition window_text :: "jsstring list \<Rightarrow> int \<times> int \<Rightarrow> jsstring" where
  "window_text words w = js_join (js '' '') (js_slice words (fst w) (snd w))"

text \<open>
  The specification's windows over \<open>n\<close> words, beginning at \<open>start\<close>: a window ends
  at \<open>min (start + sizeWords) n\<close>; the window that ends at \<open>n\<close> is the last one;
  after any other window the next one starts at its end minus \<open>overlapWords\<close>.
\<close>

fun windows_from :: "chunk_config \<Rightarrow> int \<Rightarrow> int \<Rightarrow> (int \<times> int) list \<Rightarrow> bool" where
  "windows_from cfg n start [] = False"
| "windows_from cfg n start (w # rest) =
     (fst w = start \<and> snd w = min (start + sizeWords cfg) n \<and>
      (if snd w = n then rest = [] else windows_from cfg n (snd w - overlapWords cfg) rest))"

text \<open>A word proper: it is not empty and holds no whitespace.\<close>

definition proper_word :: "jsstring \<Rightarrow> bool" where
  "proper_word w \<longleftrightarrow> w \<noteq> [] \<and> (\<forall>c \<in> set w. \<not> is_ws c)"

section \<open>The guard and the row of the log handler\<close>

text \<open>
  Names for two parts of the handler of /log_completion_result: its required-field check,
  and the row it builds from the request and the embedding of the answer.
\<close>

definition valid_log :: "jsval \<Rightarrow> bool" where
  "valid_log body \<longleftrightarrow>
     truthy (opt_prop body (js ''course'')) \<and> truthy (opt_prop body (js ''assignment_type''))
     \<and> truthy (opt_prop body (js ''model_answer'')) \<and> truthy (opt_prop body (js ''outcome''))"

definition log_row :: "jsval \<Rightarrow> jsval \<Rightarrow> jsval" where
  "log_row body answerEmbedding =
     completion_row (opt_prop body (js ''course''))
       (if opt_prop body (js ''outcome'') = Str (js ''success'') then Str (js ''completion_good'')
        else Str (js ''completion_bad''))
       (opt_prop body (js ''subtopic''))
       (opt_prop body (js ''assignment_type''))
       (opt_prop body (js ''original_prompt''))
       (opt_prop body (js ''model_answer''))
       (opt_prop body (js ''outcome''))
       (opt_prop body (js ''score''))
       (opt_prop body (js ''teacher_feedback''))
       answerEmbedding"

section \<open>Concrete inputs\<close>

text \<open>A text of 1000 words.\<close>

definition example_text :: jsstring where
  "example_text = js_join (js '' '') (replicate 1000 (js ''word''))"

text \<open>
  Services that answer every call: one embedding per request, one stored row with id 7,
  no search result.
\<close>

definition env_ok :: env where
  "env_ok =
     \<lparr>embeddings_create =
        (\<lambda>req. Some (Obj [(js ''data'', Arr [Obj [(js ''embedding'', Arr [Num (Finite 1)])]])])),
      kb_insert =
        (\<lambda>rows. Some (Obj [(js ''data'', Arr [Obj [(js ''id'', Num (Finite 7))]]),
                            (js ''error'', Null)])),
      match_kb_chunks =
        (\<lambda>args. Some (Obj [(js ''data'', Arr []), (js ''error'', Null)]))\<rparr>"

definition search_body :: jsval where
  "search_body = Obj [(js ''query'', Str (js ''loops''))]"


text \<open>Request bodies of /log_completion_result and /ingest_content.\<close>

definition log_body :: "jsval \<Rightarrow> jsval" where
  "log_body outcome =
     Obj [(js ''course'', Str (js ''math'')), (js ''assignment_type'', Str (js ''essay'')),
          (js ''original_prompt'', Str (js ''a prompt'')),
          (js ''model_answer'', Str (js ''an answer'')), (js ''outcome'', outcome),
          (js ''score'', Num (Finite 9)), (js ''teacher_feedback'', Str (js ''well done''))]"

definition ingest_body :: "jsval \<Rightarrow> jsval" where
  "ingest_body raw_text =
     Obj [(js ''course'', Str (js ''math'')), (js ''type'', Str (js ''resource'')),
          (js ''raw_text'', raw_text)]"

section \<open>Profiles\<close>

lemma getChunkConfig_cases:
  "getChunkConfig p =
     (if p = Str (js ''short_form'') then \<lparr>sizeWords = 400, overlapWords = 60\<rparr>
      else if p = Str (js ''long_book'') then \<lparr>sizeWords = 1400, overlapWords = 180\<rparr>
      else \<lparr>sizeWords = 900, overlapWords = 120\<rparr>)"
  by (simp add: getChunkConfig_def default_to_def js_def)

lemma getChunkConfig_default_to [simp]:
  "getChunkConfig (default_to p (Str (js ''default''))) = getChunkConfig p"
  by (simp add: getChunkConfig_def default_to_def)

lemma getChunkConfig_bounds:
  "0 \<le> overlapWords (getChunkConfig p)"
  "overlapWords (getChunkConfig p) < sizeWords (getChunkConfig p)"
  by (simp_all add: getChunkConfig_cases)

text \<open>
  C8: \<open>getChunkConfig\<close> returns a profile for every value it is given: the profile
  400/60 for the name \<open>short_form\<close>, 1400/180 for \<open>long_book\<close>, and 900/120 for
  every other value and for an absent name (\<open>undefined\<close>). In every profile it returns
  the overlap is smaller than the size.
\<close>

theorem getChunkConfig_total:
  "getChunkConfig (Str (js ''short_form'')) = \<lparr>sizeWords = 400, overlapWords = 60\<rparr>
   \<and> getChunkConfig (Str (js ''long_book'')) = \<lparr>sizeWords = 1400, overlapWords = 180\<rparr>
   \<and> getChunkConfig Undefined = \<lparr>sizeWords = 900, overlapWords = 120\<rparr>
   \<and> getChunkConfig p =
       (if p = Str (js ''short_form'') then \<lparr>sizeWords = 400, overlapWords = 60\<rparr>
        else if p = Str (js ''long_book'') then \<lparr>sizeWords = 1400, overlapWords = 180\<rparr>
        else \<lparr>sizeWords = 900, overlapWords = 120\<rparr>)
   \<and> overlapWords (getChunkConfig p) < sizeWords (getChunkConfig p)"
  by (simp add: getChunkConfig_cases js_def)

section \<open>Words\<close>

lemma split_from_unfold:
  "split_from cur s =
     (cur @ takeWhile (\<lambda>x. \<not> is_ws x) s) #
     (case dropWhile (\<lambda>x. \<not> is_ws x) s of
        [] \<Rightarrow> []
      | c # cs \<Rightarrow> split_from [] (dropWhile is_ws cs))"
  by (induction s arbitrary: cur) auto

lemma words_spec_dropWhile: "words_spec (dropWhile is_ws s) = words_spec s"
  by (subst (1 2) words_spec.simps) simp

lemma filter_split_from:
  "filter (\<lambda>w. w \<noteq> []) (split_from [] s) = words_spec s"
proof (induction s rule: length_induct)
  case (1 s)
  show ?case
  proof (cases s)
    case Nil
    then show ?thesis by (simp add: words_spec.simps)
  next
    case (Cons c cs)
    show ?thesis
    proof (cases "is_ws c")
      case True
      have le: "length (dropWhile is_ws cs) < length s"
        using length_dropWhile_le[of is_ws cs] Cons by simp
      have "filter (\<lambda>w. w \<noteq> []) (split_from [] s)
              = filter (\<lambda>w. w \<noteq> []) (split_from [] (dropWhile is_ws cs))"
        using Cons True by simp
      also have "\<dots> = words_spec (dropWhile is_ws cs)"
        using 1 le by blast
      also have "\<dots> = words_spec (dropWhile is_ws s)"
        using Cons True by simp
      also have "\<dots> = words_spec s" by (rule words_spec_dropWhile)
      finally show ?thesis .
    next
      case False
      let ?r = "dropWhile (\<lambda>x. \<not> is_ws x) s"
      have tw: "takeWhile (\<lambda>x. \<not> is_ws x) s \<noteq> []" using Cons False by simp
      have ws: "words_spec s = takeWhile (\<lambda>x. \<not> is_ws x) s # words_spec ?r"
        using False by (subst words_spec.simps) (simp add: Cons)
      show ?thesis
      proof (cases ?r)
        case Nil
        have "words_spec ?r = []" unfolding Nil by (simp add: words_spec.simps)
        moreover have "split_from [] s = [takeWhile (\<lambda>x. \<not> is_ws x) s]"
          by (subst split_from_unfold) (simp add: Nil)
        ultimately show ?thesis using ws tw by simp
      next
        case (Cons d ds)
        have d: "is_ws d" using hd_dropWhile[of "\<lambda>x. \<not> is_ws x" s] Cons by auto
        have le: "length (dropWhile is_ws ds) < length s"
          using length_dropWhile_le[of is_ws ds] length_dropWhile_le[of "\<lambda>x. \<not> is_ws x" s] Cons
          by simp
        have "words_spec ?r = words_spec (dropWhile is_ws ?r)"
          by (rule words_spec_dropWhile[symmetric])
        also have "\<dots> = words_spec (dropWhile is_ws ds)" using Cons d by simp
        also have "\<dots> = filter (\<lambda>w. w \<noteq> []) (split_from [] (dropWhile is_ws ds))"
          using 1 le by simp
        finally have r: "words_spec ?r
            = filter (\<lambda>w. w \<noteq> []) (split_from [] (dropWhile is_ws ds))" .
        have "split_from [] s
            = takeWhile (\<lambda>x. \<not> is_ws x) s # split_from [] (dropWhile is_ws ds)"
          by (subst split_from_unfold) (simp add: Cons)
        then show ?thesis using ws tw r by simp
      qed
    qed
  qed
qed

lemma words_of_eq_spec: "words_of s = words_spec s"
  by (simp add: words_of_def split_ws_def filter_split_from)

section \<open>Texts of at most one window\<close>

text \<open>
  C3: when the text has at least one word and no more words than the profile's
  \<open>sizeWords\<close>, \<open>chunkText\<close> returns exactly one chunk, the normalized text: the
  words between runs of whitespace, empty ones dropped, joined with single spaces.
\<close>

theorem chunkText_single_chunk:
  assumes "0 < length (words_spec t)"
    and "int (length (words_spec t)) \<le> sizeWords (getChunkConfig profile)"
  shows "chunkText (Str t) profile = Some (Inr [normalize_spec t])"
  using assms
  by (simp add: chunkText_def chunk_with_def chunk_words_def words_of_eq_spec normalize_spec_def)

theorem chunkText_single_chunk_witness:
  "0 < length (words_spec (js '' to  be or   not ''))
   \<and> int (length (words_spec (js '' to  be or   not ''))) \<le> sizeWords (getChunkConfig Undefined)
   \<and> chunkText (Str (js '' to  be or   not '')) Undefined = Some (Inr [js ''to be or not''])"
proof -
  have w: "words_spec (js '' to  be or   not '') = [js ''to'', js ''be'', js ''or'', js ''not'']"
    unfolding words_of_eq_spec[symmetric]
    by (simp add: words_of_def split_ws_def js_def is_ws_def)
  have n: "normalize_spec (js '' to  be or   not '') = js ''to be or not''"
    unfolding normalize_spec_def w by (simp add: js_def)
  have h1: "0 < length (words_spec (js '' to  be or   not ''))" by (simp add: w)
  have h2: "int (length (words_spec (js '' to  be or   not '')))
              \<le> sizeWords (getChunkConfig Undefined)"
    by (simp add: w getChunkConfig_cases)
  show ?thesis
    using chunkText_single_chunk[OF h1 h2] h1 h2 by (simp add: n)
qed

section \<open>The loop\<close>

lemma chunk_step_Continue:
  "chunk_step cfg words start chunks = Continue start' chunks' \<Longrightarrow>
     start' = start + sizeWords cfg - overlapWords cfg \<and> start + sizeWords cfg < int (length words)
     \<and> chunks' = chunks @ [window_text words (start, start + sizeWords cfg)]"
  by (auto simp: chunk_step_def Let_def window_text_def min_def split: if_splits)

lemma chunk_step_Break:
  "chunk_step cfg words start chunks = Break chunks' \<Longrightarrow>
     int (length words) \<le> start + sizeWords cfg
     \<and> chunks' = chunks @ [window_text words (start, int (length words))]"
  by (auto simp: chunk_step_def Let_def window_text_def min_def split: if_splits)

lemma chunk_loop_returns:
  assumes "overlapWords cfg < sizeWords cfg"
  shows "\<exists>r. chunk_loop cfg words start chunks = Some r"
proof (induction "nat (int (length words) - start)" arbitrary: start chunks rule: less_induct)
  case less
  show ?case
  proof (cases "start < int (length words)")
    case False
    then show ?thesis by (subst chunk_loop.simps) simp
  next
    case True
    show ?thesis
    proof (cases "chunk_step cfg words start chunks")
      case (Break cs)
      then show ?thesis using True by (subst chunk_loop.simps) simp
    next
      case (Continue start' cs)
      have "start' = start + sizeWords cfg - overlapWords cfg"
        using chunk_step_Continue[OF Continue] by simp
      then have "nat (int (length words) - start') < nat (int (length words) - start)"
        using assms True by simp
      then obtain r where "chunk_loop cfg words start' cs = Some r"
        using less by blast
      then show ?thesis using True Continue by (subst chunk_loop.simps) simp
    qed
  qed
qed

lemma chunk_loop_windows:
  assumes "0 \<le> overlapWords cfg" and "overlapWords cfg < sizeWords cfg"
    and "start < int (length words)"
  shows "\<exists>ws. windows_from cfg (int (length words)) start ws
           \<and> chunk_loop cfg words start chunks = Some (chunks @ map (window_text words) ws)"
  using assms(3)
proof (induction "nat (int (length words) - start)" arbitrary: start chunks rule: less_induct)
  case less
  show ?case
  proof (cases "chunk_step cfg words start chunks")
    case (Break cs)
    have b: "int (length words) \<le> start + sizeWords cfg"
       "cs = chunks @ [window_text words (start, int (length words))]"
      using chunk_step_Break[OF Break] by simp_all
    have "windows_from cfg (int (length words)) start [(start, int (length words))]"
      using b(1) by simp
    moreover have "chunk_loop cfg words start chunks
        = Some (chunks @ map (window_text words) [(start, int (length words))])"
      using less.prems Break b(2) by (subst chunk_loop.simps) simp
    ultimately show ?thesis by blast
  next
    case (Continue start' cs)
    have c: "start' = start + sizeWords cfg - overlapWords cfg"
      "start + sizeWords cfg < int (length words)"
      "cs = chunks @ [window_text words (start, start + sizeWords cfg)]"
      using chunk_step_Continue[OF Continue] by simp_all
    have lt: "start' < int (length words)" using c(1,2) assms(1) by simp
    have "nat (int (length words) - start') < nat (int (length words) - start)"
      using c(1) assms(2) less.prems by simp
    then obtain ws where ws: "windows_from cfg (int (length words)) start' ws"
      "chunk_loop cfg words start' cs = Some (cs @ map (window_text words) ws)"
      using less.hyps[OF _ lt] by blast
    have "windows_from cfg (int (length words)) start ((start, start + sizeWords cfg) # ws)"
      using ws(1) c(1,2) by simp
    moreover have "chunk_loop cfg words start chunks
        = Some (chunks @ map (window_text words) ((start, start + sizeWords cfg) # ws))"
      using less.prems Continue ws(2) c(3) by (subst chunk_loop.simps) simp
    ultimately show ?thesis by blast
  qed
qed

lemma windows_from_hd:
  "windows_from cfg n start ws \<Longrightarrow> ws \<noteq> [] \<and> fst (ws ! 0) = start"
  by (cases ws) auto

lemma windows_from_end:
  "windows_from cfg n start ws \<Longrightarrow> i < length ws \<Longrightarrow>
     snd (ws ! i) = min (fst (ws ! i) + sizeWords cfg) n"
proof (induction ws arbitrary: start i)
  case Nil
  then show ?case by simp
next
  case (Cons w ws)
  then show ?case by (cases i) (auto split: if_splits)
qed

lemma windows_from_next:
  "windows_from cfg n start ws \<Longrightarrow> Suc i < length ws \<Longrightarrow>
     fst (ws ! Suc i) = snd (ws ! i) - overlapWords cfg \<and> snd (ws ! i) \<noteq> n"
proof (induction ws arbitrary: start i)
  case Nil
  then show ?case by simp
next
  case (Cons w ws)
  show ?case
  proof (cases i)
    case 0
    then show ?thesis using Cons.prems windows_from_hd[of cfg n _ ws]
      by (auto split: if_splits)
  next
    case (Suc j)
    then show ?thesis using Cons by (auto split: if_splits)
  qed
qed

lemma windows_from_last:
  "windows_from cfg n start ws \<Longrightarrow> snd (last ws) = n"
proof (induction ws arbitrary: start)
  case Nil
  then show ?case by simp
next
  case (Cons w ws)
  show ?case
  proof (cases "snd w = n")
    case True
    then have "ws = []" using Cons.prems by simp
    then show ?thesis using True by simp
  next
    case False
    then have r: "windows_from cfg n (snd w - overlapWords cfg) ws"
      using Cons.prems by (auto split: if_splits)
    then have "ws \<noteq> []" by auto
    then show ?thesis using Cons.IH[OF r] by simp
  qed
qed

lemma windows_from_cover:
  assumes "overlapWords cfg < sizeWords cfg" and "0 \<le> overlapWords cfg"
  shows "windows_from cfg n start ws \<Longrightarrow> start \<le> k \<Longrightarrow> k < n \<Longrightarrow>
     \<exists>i < length ws. fst (ws ! i) \<le> k \<and> k < snd (ws ! i)"
proof (induction ws arbitrary: start)
  case Nil
  then show ?case by simp
next
  case (Cons w ws)
  show ?case
  proof (cases "k < snd w")
    case True
    then have "fst ((w # ws) ! 0) \<le> k \<and> k < snd ((w # ws) ! 0)" using Cons.prems by simp
    then show ?thesis by blast
  next
    case False
    then have ne: "snd w \<noteq> n" using Cons.prems by simp
    then have w: "windows_from cfg n (snd w - overlapWords cfg) ws"
      using Cons.prems(1) by (auto split: if_splits)
    have "snd w - overlapWords cfg \<le> k" using False assms(2) by simp
    then obtain i where "i < length ws" "fst (ws ! i) \<le> k \<and> k < snd (ws ! i)"
      using Cons.IH[OF w _ Cons.prems(3)] by blast
    then have "Suc i < length (w # ws) \<and> fst ((w # ws) ! Suc i) \<le> k \<and> k < snd ((w # ws) ! Suc i)"
      by simp
    then show ?thesis by blast
  qed
qed

lemma windows_from_range:
  assumes "overlapWords cfg < sizeWords cfg" and "0 \<le> overlapWords cfg"
  shows "windows_from cfg n start ws \<Longrightarrow> 0 \<le> start \<Longrightarrow> start < n \<Longrightarrow> w \<in> set ws \<Longrightarrow>
     0 \<le> fst w \<and> fst w < snd w \<and> snd w \<le> n"
proof (induction ws arbitrary: start)
  case Nil
  then show ?case by simp
next
  case (Cons v ws)
  show ?case
  proof (cases "w = v")
    case True
    then show ?thesis using Cons.prems assms by (auto simp: min_def)
  next
    case False
    then have m: "w \<in> set ws" using Cons.prems by simp
    then have "ws \<noteq> []" by auto
    then have ne: "snd v \<noteq> n" using Cons.prems(1) by auto
    then have r: "windows_from cfg n (snd v - overlapWords cfg) ws"
      using Cons.prems(1) by (auto split: if_splits)
    have e: "snd v = start + sizeWords cfg" "start + sizeWords cfg < n"
      using ne Cons.prems(1) by (auto simp: min_def split: if_splits)
    have "0 \<le> snd v - overlapWords cfg" "snd v - overlapWords cfg < n"
      using e assms Cons.prems(2) by simp_all
    then show ?thesis using Cons.IH[OF r _ _ m] by simp
  qed
qed

section \<open>Words of a joined text\<close>

lemma js_space: "js '' '' = [0x20]"
  by (simp add: js_def)

lemma is_ws_space: "is_ws 0x20"
  by (simp add: is_ws_def)

lemma words_spec_Nil: "dropWhile is_ws s = [] \<Longrightarrow> words_spec s = []"
  by (subst words_spec.simps) (simp only: list.case)

lemma words_spec_Cons:
  "dropWhile is_ws s = c # cs \<Longrightarrow>
     words_spec s = takeWhile (\<lambda>x. \<not> is_ws x) (c # cs)
                    # words_spec (dropWhile (\<lambda>x. \<not> is_ws x) (c # cs))"
  by (subst words_spec.simps) (simp only: list.case)

lemma words_spec_proper: "w \<in> set (words_spec s) \<Longrightarrow> proper_word w"
proof (induction s rule: words_spec.induct)
  case (1 s)
  show ?case
  proof (cases "dropWhile is_ws s")
    case Nil
    then show ?thesis using "1.prems" words_spec_Nil by simp
  next
    case (Cons c cs)
    have c: "\<not> is_ws c" using hd_dropWhile[of is_ws s] Cons by auto
    have "w = takeWhile (\<lambda>x. \<not> is_ws x) (c # cs)
          \<or> w \<in> set (words_spec (dropWhile (\<lambda>x. \<not> is_ws x) (c # cs)))"
      using "1.prems" unfolding words_spec_Cons[OF Cons] by simp
    then show ?thesis
    proof
      assume w: "w = takeWhile (\<lambda>x. \<not> is_ws x) (c # cs)"
      have "w \<noteq> []" using w c by simp
      moreover have "\<forall>x \<in> set w. \<not> is_ws x"
        unfolding w using set_takeWhileD by fastforce
      ultimately show ?thesis by (simp add: proper_word_def)
    next
      assume "w \<in> set (words_spec (dropWhile (\<lambda>x. \<not> is_ws x) (c # cs)))"
      then show ?thesis using "1.IH"[OF Cons] by simp
    qed
  qed
qed

lemma words_spec_skip: "is_ws c \<Longrightarrow> words_spec (c # s) = words_spec s"
proof -
  assume c: "is_ws c"
  have "words_spec (c # s) = words_spec (dropWhile is_ws (c # s))"
    by (rule words_spec_dropWhile[symmetric])
  also have "\<dots> = words_spec (dropWhile is_ws s)" using c by simp
  also have "\<dots> = words_spec s" by (rule words_spec_dropWhile)
  finally show ?thesis .
qed

lemma words_spec_single: "proper_word w \<Longrightarrow> words_spec w = [w]"
proof -
  assume p: "proper_word w"
  then obtain c cs where w: "w = c # cs" by (cases w) (auto simp: proper_word_def)
  have c: "\<not> is_ws c" using p w by (simp add: proper_word_def)
  have all: "\<And>x. x \<in> set w \<Longrightarrow> \<not> is_ws x" using p by (simp add: proper_word_def)
  have dw: "dropWhile is_ws w = c # cs" using w c by simp
  have tw: "takeWhile (\<lambda>x. \<not> is_ws x) w = w" using all by (simp add: takeWhile_eq_all_conv)
  have dn: "dropWhile (\<lambda>x. \<not> is_ws x) w = []" using all by simp
  have "words_spec w = takeWhile (\<lambda>x. \<not> is_ws x) w # words_spec (dropWhile (\<lambda>x. \<not> is_ws x) w)"
    using words_spec_Cons[OF dw] unfolding w[symmetric] .
  also have "\<dots> = [w]" by (simp add: tw dn words_spec_Nil)
  finally show ?thesis .
qed

lemma words_spec_word_then:
  assumes "proper_word w" and "is_ws c"
  shows "words_spec (w @ c # s) = w # words_spec s"
proof -
  obtain d ds where w: "w = d # ds" using assms(1) by (cases w) (auto simp: proper_word_def)
  have d: "\<not> is_ws d" using assms(1) w by (simp add: proper_word_def)
  have all: "\<And>x. x \<in> set w \<Longrightarrow> \<not> is_ws x" using assms(1) by (simp add: proper_word_def)
  have dw: "dropWhile is_ws (w @ c # s) = d # (ds @ c # s)" using w d by simp
  have tw: "takeWhile (\<lambda>x. \<not> is_ws x) (w @ c # s) = w"
    using all assms(2) by (simp add: takeWhile_append2)
  have dn: "dropWhile (\<lambda>x. \<not> is_ws x) (w @ c # s) = c # s"
    using all assms(2) by (simp add: dropWhile_append2)
  have e: "d # (ds @ c # s) = w @ c # s" using w by simp
  have "words_spec (w @ c # s)
      = takeWhile (\<lambda>x. \<not> is_ws x) (w @ c # s)
        # words_spec (dropWhile (\<lambda>x. \<not> is_ws x) (w @ c # s))"
    using words_spec_Cons[OF dw] unfolding e .
  also have "\<dots> = w # words_spec (c # s)" by (simp only: tw dn)
  also have "\<dots> = w # words_spec s" using words_spec_skip[OF assms(2)] by simp
  finally show ?thesis .
qed

lemma words_spec_join:
  "\<forall>w \<in> set ws. proper_word w \<Longrightarrow> words_spec (js_join (js '' '') ws) = ws"
proof (induction "js '' ''" ws rule: js_join.induct)
  case 1
  then show ?case by (simp add: words_spec_Nil)
next
  case (2 w)
  then show ?case by (simp add: words_spec_single)
next
  case (3 w v ws)
  have "words_spec (js_join (js '' '') (w # v # ws))
      = words_spec (w @ 0x20 # js_join (js '' '') (v # ws))"
    by (simp add: js_space)
  also have "\<dots> = w # words_spec (js_join (js '' '') (v # ws))"
    using 3 by (simp add: words_spec_word_then is_ws_space)
  also have "\<dots> = w # v # ws" using 3 by simp
  finally show ?case .
qed

lemma set_js_slice: "set (js_slice xs a b) \<subseteq> set xs"
proof -
  have "set (js_slice xs a b) \<subseteq> set (drop (nat (if a < 0 then max (int (length xs) + a) 0
           else min a (int (length xs)))) xs)"
    unfolding js_slice_def Let_def by (rule set_take_subset)
  also have "\<dots> \<subseteq> set xs" by (rule set_drop_subset)
  finally show ?thesis .
qed

lemma words_of_window:
  "words_of (window_text (words_of t) w) = js_slice (words_of t) (fst w) (snd w)"
proof -
  have "\<forall>x \<in> set (js_slice (words_of t) (fst w) (snd w)). proper_word x"
    using set_js_slice[of "words_of t" "fst w" "snd w"] words_spec_proper[of _ t]
    by (auto simp: words_of_eq_spec)
  then show ?thesis
    by (simp add: window_text_def words_of_eq_spec[of "js_join _ _"] words_spec_join)
qed

lemma window_overlap:
  fixes s1 e1 s2 e2 sz ov n :: int
  assumes "0 \<le> ov" "ov < sz" "e1 = min (s1 + sz) n" "e1 \<noteq> n" "s2 = e1 - ov"
    "e2 = min (s2 + sz) n"
  shows "card ({s1 ..< e1} \<inter> {s2 ..< e2}) = nat ov"
proof -
  have a: "e1 = s1 + sz" "e1 < n" using assms(3,4) by (auto simp: min_def split: if_splits)
  have "max s1 s2 = s2" using a assms by simp
  moreover have "min e1 e2 = e1" using a assms by (simp add: min_def)
  ultimately have "{s1 ..< e1} \<inter> {s2 ..< e2} = {s2 ..< e1}" by (simp add: Int_atLeastLessThan)
  then show ?thesis using assms(5) by simp
qed

section \<open>Texts of more than one window\<close>

lemma js_slice_inside:
  "0 \<le> a \<Longrightarrow> a \<le> b \<Longrightarrow> b \<le> int (length xs) \<Longrightarrow>
     js_slice xs a b = take (nat (b - a)) (drop (nat a) xs)"
  by (simp add: js_slice_def Let_def min_def)

lemma chunk_words_windows:
  assumes "0 \<le> overlapWords cfg" and "overlapWords cfg < sizeWords cfg"
    and "sizeWords cfg < int (length words)"
  shows "\<exists>ws. windows_from cfg (int (length words)) 0 ws
           \<and> chunk_words cfg words = Some (map (window_text words) ws)"
proof -
  have pos: "(0::int) < int (length words)" using assms by linarith
  obtain ws where "windows_from cfg (int (length words)) 0 ws"
    "chunk_loop cfg words 0 [] = Some ([] @ map (window_text words) ws)"
    using chunk_loop_windows[OF assms(1,2) pos] by blast
  moreover have "chunk_words cfg words = chunk_loop cfg words 0 []"
    using assms(3) pos by (simp add: chunk_words_def)
  ultimately show ?thesis by auto
qed

lemma chunkText_Str:
  "chunkText (Str t) profile
     = map_option Inr (chunk_words (getChunkConfig profile) (words_of t))"
  by (simp add: chunkText_def chunk_with_def)

lemma chunkText_windows_from:
  assumes "sizeWords (getChunkConfig profile) < int (length (words_of t))"
  shows "\<exists>ws. windows_from (getChunkConfig profile) (int (length (words_of t))) 0 ws
           \<and> chunkText (Str t) profile = Some (Inr (map (window_text (words_of t)) ws))"
proof -
  obtain ws where "windows_from (getChunkConfig profile) (int (length (words_of t))) 0 ws"
    "chunk_words (getChunkConfig profile) (words_of t) = Some (map (window_text (words_of t)) ws)"
    using chunk_words_windows[OF getChunkConfig_bounds assms] by blast
  then show ?thesis by (auto simp: chunkText_Str)
qed

lemma thousand_words:
  assumes "length words = 1000"
  shows "chunk_words \<lparr>sizeWords = 400, overlapWords = 60\<rparr> words
     = Some (map (window_text words) [(0, 400), (340, 740), (680, 1000)])"
  using assms
  by (simp add: chunk_words_def chunk_loop.simps chunk_step_def Let_def window_text_def)

text \<open>
  C1: when the text has more words than the profile's \<open>sizeWords\<close>, the chunks of
  \<open>chunkText\<close> are the texts of a sequence of windows: the first starts at index 0,
  every window ends at \<open>min (start + sizeWords, total_words)\<close>, every later window
  starts at the end of the one before minus \<open>overlapWords\<close>, no window but the last
  ends at the total word count, and the last one does. In particular a text of 1000
  words under the profile \<open>short_form\<close> (400/60) gives exactly the three chunks of the
  word ranges [0,400), [340,740) and [680,1000).
\<close>

theorem chunkText_windows:
  "(sizeWords (getChunkConfig profile) < int (length (words_of t)) \<longrightarrow>
     (\<exists>ws. chunkText (Str t) profile = Some (Inr (map (window_text (words_of t)) ws))
        \<and> ws \<noteq> [] \<and> fst (ws ! 0) = 0
        \<and> (\<forall>i < length ws. snd (ws ! i)
               = min (fst (ws ! i) + sizeWords (getChunkConfig profile))
                     (int (length (words_of t))))
        \<and> (\<forall>i. Suc i < length ws \<longrightarrow>
               fst (ws ! Suc i) = snd (ws ! i) - overlapWords (getChunkConfig profile)
               \<and> snd (ws ! i) \<noteq> int (length (words_of t)))
        \<and> snd (last ws) = int (length (words_of t))))
   \<and> (length (words_of t) = 1000 \<longrightarrow>
        chunkText (Str t) (Str (js ''short_form''))
          = Some (Inr (map (window_text (words_of t)) [(0, 400), (340, 740), (680, 1000)])))"
proof (intro conjI impI)
  assume a: "sizeWords (getChunkConfig profile) < int (length (words_of t))"
  obtain ws where ws: "windows_from (getChunkConfig profile) (int (length (words_of t))) 0 ws"
    and r: "chunkText (Str t) profile = Some (Inr (map (window_text (words_of t)) ws))"
    using chunkText_windows_from[OF a] by blast
  show "\<exists>ws. chunkText (Str t) profile = Some (Inr (map (window_text (words_of t)) ws))
        \<and> ws \<noteq> [] \<and> fst (ws ! 0) = 0
        \<and> (\<forall>i < length ws. snd (ws ! i)
               = min (fst (ws ! i) + sizeWords (getChunkConfig profile))
                     (int (length (words_of t))))
        \<and> (\<forall>i. Suc i < length ws \<longrightarrow>
               fst (ws ! Suc i) = snd (ws ! i) - overlapWords (getChunkConfig profile)
               \<and> snd (ws ! i) \<noteq> int (length (words_of t)))
        \<and> snd (last ws) = int (length (words_of t))"
    using r windows_from_hd[OF ws] windows_from_end[OF ws] windows_from_next[OF ws]
      windows_from_last[OF ws]
    by blast
next
  assume "length (words_of t) = 1000"
  then show "chunkText (Str t) (Str (js ''short_form''))
          = Some (Inr (map (window_text (words_of t)) [(0, 400), (340, 740), (680, 1000)]))"
    by (simp add: chunkText_Str getChunkConfig_cases thousand_words)
qed

lemma words_of_example_text: "words_of example_text = replicate 1000 (js ''word'')"
proof -
  have "proper_word (js ''word'')" by (simp add: proper_word_def js_def is_ws_def)
  then show ?thesis
    unfolding example_text_def words_of_eq_spec by (intro words_spec_join) simp
qed

theorem chunkText_windows_witness:
  "sizeWords (getChunkConfig (Str (js ''short_form''))) < int (length (words_of example_text))
   \<and> length (words_of example_text) = 1000
   \<and> (\<exists>ws. chunkText (Str example_text) (Str (js ''short_form''))
              = Some (Inr (map (window_text (words_of example_text)) ws))
          \<and> fst (ws ! 0) = 0 \<and> snd (last ws) = int (length (words_of example_text)))
   \<and> chunkText (Str example_text) (Str (js ''short_form''))
        = Some (Inr (map (window_text (words_of example_text))
                      [(0, 400), (340, 740), (680, 1000)]))"
proof -
  have h1: "sizeWords (getChunkConfig (Str (js ''short_form'')))
              < int (length (words_of example_text))"
    by (simp add: words_of_example_text getChunkConfig_cases)
  have h2: "length (words_of example_text) = 1000"
    by (simp add: words_of_example_text)
  note t = chunkText_windows[of "Str (js ''short_form'')" example_text]
  from t h1 obtain ws where
    "chunkText (Str example_text) (Str (js ''short_form''))
       = Some (Inr (map (window_text (words_of example_text)) ws))"
    "fst (ws ! 0) = 0" "snd (last ws) = int (length (words_of example_text))"
    by blast
  moreover from t h2 have
    "chunkText (Str example_text) (Str (js ''short_form''))
        = Some (Inr (map (window_text (words_of example_text))
                      [(0, 400), (340, 740), (680, 1000)]))"
    by blast
  ultimately show ?thesis using h1 h2 by blast
qed

text \<open>
  C2: when the text has more words than the profile's \<open>sizeWords\<close>, the chunks are the
  texts of windows that lie inside the text and are not empty, the words of each chunk
  are the words of the text at the window's indices, every word index of the text lies
  in some window, and all neighbouring windows (the final pair too) share exactly
  \<open>overlapWords\<close> word indices.
\<close>

theorem chunkText_coverage:
  assumes "sizeWords (getChunkConfig profile) < int (length (words_of t))"
  shows "\<exists>ws. chunkText (Str t) profile = Some (Inr (map (window_text (words_of t)) ws))
     \<and> (\<forall>i < length ws.
           0 \<le> fst (ws ! i) \<and> fst (ws ! i) < snd (ws ! i)
           \<and> snd (ws ! i) \<le> int (length (words_of t))
           \<and> words_of (window_text (words_of t) (ws ! i))
               = take (nat (snd (ws ! i) - fst (ws ! i))) (drop (nat (fst (ws ! i))) (words_of t)))
     \<and> (\<forall>k. 0 \<le> k \<and> k < int (length (words_of t)) \<longrightarrow>
           (\<exists>i < length ws. fst (ws ! i) \<le> k \<and> k < snd (ws ! i)))
     \<and> (\<forall>i. Suc i < length ws \<longrightarrow>
           card ({fst (ws ! i) ..< snd (ws ! i)} \<inter> {fst (ws ! Suc i) ..< snd (ws ! Suc i)})
             = nat (overlapWords (getChunkConfig profile)))"
proof -
  let ?cfg = "getChunkConfig profile" and ?n = "int (length (words_of t))"
  obtain ws where ws: "windows_from ?cfg ?n 0 ws"
    and r: "chunkText (Str t) profile = Some (Inr (map (window_text (words_of t)) ws))"
    using chunkText_windows_from[OF assms] by blast
  have pos: "(0::int) < ?n" using assms getChunkConfig_bounds[of profile] by linarith
  have rng: "\<And>i. i < length ws \<Longrightarrow>
      0 \<le> fst (ws ! i) \<and> fst (ws ! i) < snd (ws ! i) \<and> snd (ws ! i) \<le> ?n"
    using windows_from_range[OF getChunkConfig_bounds(2,1) ws _ pos] by simp
  have wtx: "\<And>i. i < length ws \<Longrightarrow>
      words_of (window_text (words_of t) (ws ! i))
        = take (nat (snd (ws ! i) - fst (ws ! i))) (drop (nat (fst (ws ! i))) (words_of t))"
    using rng by (simp add: words_of_window js_slice_inside less_imp_le)
  have cov: "\<And>k. 0 \<le> k \<and> k < ?n \<Longrightarrow> \<exists>i < length ws. fst (ws ! i) \<le> k \<and> k < snd (ws ! i)"
    using windows_from_cover[OF getChunkConfig_bounds(2,1) ws] by blast
  have ov: "\<And>i. Suc i < length ws \<Longrightarrow>
      card ({fst (ws ! i) ..< snd (ws ! i)} \<inter> {fst (ws ! Suc i) ..< snd (ws ! Suc i)})
        = nat (overlapWords ?cfg)"
  proof -
    fix i assume i: "Suc i < length ws"
    have "snd (ws ! i) = min (fst (ws ! i) + sizeWords ?cfg) ?n"
      using windows_from_end[OF ws] i by simp
    moreover have "snd (ws ! Suc i) = min (fst (ws ! Suc i) + sizeWords ?cfg) ?n"
      using windows_from_end[OF ws i] .
    moreover have "fst (ws ! Suc i) = snd (ws ! i) - overlapWords ?cfg" "snd (ws ! i) \<noteq> ?n"
      using windows_from_next[OF ws i] by simp_all
    ultimately show "card ({fst (ws ! i) ..< snd (ws ! i)} \<inter> {fst (ws ! Suc i) ..< snd (ws ! Suc i)})
        = nat (overlapWords ?cfg)"
      using window_overlap[OF getChunkConfig_bounds(1)[of profile] getChunkConfig_bounds(2)[of profile]]
      by blast
  qed
  show ?thesis using r rng wtx cov ov by blast
qed

theorem chunkText_coverage_witness:
  "sizeWords (getChunkConfig (Str (js ''short_form''))) < int (length (words_of example_text))
   \<and> (\<exists>ws. chunkText (Str example_text) (Str (js ''short_form''))
              = Some (Inr (map (window_text (words_of example_text)) ws))
          \<and> (\<forall>k. 0 \<le> k \<and> k < 1000 \<longrightarrow>
                (\<exists>i < length ws. fst (ws ! i) \<le> k \<and> k < snd (ws ! i)))
          \<and> (\<forall>i. Suc i < length ws \<longrightarrow>
                card ({fst (ws ! i) ..< snd (ws ! i)} \<inter> {fst (ws ! Suc i) ..< snd (ws ! Suc i)})
                  = 60))"
proof -
  have h: "sizeWords (getChunkConfig (Str (js ''short_form'')))
              < int (length (words_of example_text))"
    by (simp add: words_of_example_text getChunkConfig_cases)
  have n: "int (length (words_of example_text)) = 1000"
    by (simp add: words_of_example_text)
  have o: "nat (overlapWords (getChunkConfig (Str (js ''short_form'')))) = 60"
    by (simp add: getChunkConfig_cases)
  obtain ws where "chunkText (Str example_text) (Str (js ''short_form''))
              = Some (Inr (map (window_text (words_of example_text)) ws))"
     "\<forall>k. 0 \<le> k \<and> k < 1000 \<longrightarrow> (\<exists>i < length ws. fst (ws ! i) \<le> k \<and> k < snd (ws ! i))"
     "\<forall>i. Suc i < length ws \<longrightarrow>
                card ({fst (ws ! i) ..< snd (ws ! i)} \<inter> {fst (ws ! Suc i) ..< snd (ws ! Suc i)})
                  = 60"
    using chunkText_coverage[OF h] unfolding n o by blast
  then show ?thesis using h by blast
qed

text \<open>
  C7: for every profile with \<open>overlapWords < sizeWords\<close> (\<open>overlapWords = 0\<close>
  included) and every input, the body of \<open>chunkText\<close> returns, and each pass of the
  loop that goes on moves the window start forward, by at least
  \<open>sizeWords - overlapWords\<close>. With the profiles of \<open>getChunkConfig\<close>,
  \<open>chunkText\<close> returns for every text and every profile name.
\<close>

theorem chunkText_terminates:
  "(overlapWords cfg < sizeWords cfg \<longrightarrow>
      (\<exists>r. chunk_with cfg text = Some r)
      \<and> (\<forall>words start chunks start' chunks'.
            chunk_step cfg words start chunks = Continue start' chunks' \<longrightarrow>
              start < start' \<and> start + (sizeWords cfg - overlapWords cfg) \<le> start'))
   \<and> (\<exists>r. chunkText text profile = Some r)"
proof -
  have a: "\<exists>r. chunk_with c text = Some r" if h: "overlapWords c < sizeWords c" for c
  proof (cases "text")
    case (Str s)
    obtain r where "chunk_loop c (words_of s) 0 [] = Some r"
      using chunk_loop_returns[OF h] by blast
    then show ?thesis by (simp add: Str chunk_with_def chunk_words_def)
  qed (simp_all add: chunk_with_def)
  have b: "start < start' \<and> start + (sizeWords cfg - overlapWords cfg) \<le> start'"
    if "overlapWords cfg < sizeWords cfg"
      and "chunk_step cfg words start chunks = Continue start' chunks'"
    for words start chunks start' chunks'
    using chunk_step_Continue[OF that(2)] that(1) by simp
  have c: "\<exists>r. chunkText text profile = Some r"
    using a[OF getChunkConfig_bounds(2)] by (simp add: chunkText_def)
  show ?thesis using a b c by blast
qed

theorem chunkText_terminates_witness:
  "overlapWords \<lparr>sizeWords = 2, overlapWords = 0\<rparr> < sizeWords \<lparr>sizeWords = 2, overlapWords = 0\<rparr>
   \<and> (\<exists>r. chunk_with \<lparr>sizeWords = 2, overlapWords = 0\<rparr> (Str (js ''a b c'')) = Some r)
   \<and> chunk_with \<lparr>sizeWords = 2, overlapWords = 0\<rparr> (Str (js ''a b c''))
        = Some (Inr [js ''a b'', js ''c''])"
proof -
  have e: "chunk_with \<lparr>sizeWords = 2, overlapWords = 0\<rparr> (Str (js ''a b c''))
        = Some (Inr [js ''a b'', js ''c''])"
    by (simp add: chunk_with_def chunk_words_def chunk_loop.simps chunk_step_def Let_def
        js_slice_def words_of_def split_ws_def js_def is_ws_def)
  show ?thesis
    using chunkText_terminates[of "\<lparr>sizeWords = 2, overlapWords = 0\<rparr>" "Str (js ''a b c'')"] e
    by simp
qed

section \<open>Requests and calls\<close>

lemma js_Cons_not_empty [simp]: "js (c # cs) \<noteq> []"
  by (simp add: js_def)

lemma opt_prop_absent [simp]: "opt_prop Undefined k = Undefined" "opt_prop Null k = Undefined"
  by (simp_all add: opt_prop_def)

lemma destructure_object:
  "body \<noteq> Undefined \<Longrightarrow> body \<noteq> Null \<Longrightarrow> destructure body = Inr (opt_prop body)"
  by (simp add: destructure_def)

lemma destructure_absent:
  "body = Undefined \<or> body = Null \<Longrightarrow> destructure body = Inl TypeError"
  by (auto simp: destructure_def)

lemma snd_catch_all [simp]: "snd (catch_all r) = snd r"
  by (cases r) (auto simp: catch_all_def split: sum.splits)

lemma search_try_calls:
  "snd (search_try e body) =
     (if \<not> truthy (opt_prop body (js ''query'')) then []
      else case embedText e (opt_prop body (js ''query'')) of
             Inl err \<Rightarrow> [EmbeddingsCreate (embed_request (opt_prop body (js ''query'')))]
           | Inr es \<Rightarrow>
               [EmbeddingsCreate (embed_request (opt_prop body (js ''query''))),
                Rpc (search_args (js_index es 0)
                       (opt_prop body (js ''course''))
                       (opt_prop body (js ''types''))
                       (opt_prop body (js ''subtopic''))
                       (opt_prop body (js ''assignment_type''))
                       (default_to (opt_prop body (js ''top_k'')) (Num (Finite 8)))
                       (default_to (opt_prop body (js ''threshold'')) (Num (Finite double_0_7))))])"
proof (cases "body = Undefined \<or> body = Null")
  case True
  then show ?thesis by (auto simp: search_try_def destructure_absent)
next
  case False
  then have d: "destructure body = Inr (opt_prop body)" by (simp add: destructure_object)
  show ?thesis
    unfolding search_try_def d
    by (simp add: Let_def split: sum.splits option.splits)
qed

lemma search_args_props:
  "get_prop (search_args qe c t s a k th) (js ''match_limit'') = Inr k"
  "get_prop (search_args qe c t s a k th) (js ''match_threshold'') = Inr th"
  "get_prop (search_args qe c t s a k th) (js ''match_course'') = Inr (js_or c Null)"
  "get_prop (search_args qe c t s a k th) (js ''match_types'')
     = Inr (if truthy (opt_prop t (js ''length'')) then t else Null)"
  "get_prop (search_args qe c t s a k th) (js ''match_subtopic'') = Inr (js_or s Null)"
  "get_prop (search_args qe c t s a k th) (js ''match_assignment_type'') = Inr (js_or a Null)"
  "get_prop (search_args qe c t s a k th) (js ''query_embedding'') = Inr qe"
  by (simp_all add: search_args_def js_def)


text \<open>
  C5: whenever the handler of /search_content calls the store's similarity function, the
  call carries \<open>top_k\<close> and \<open>threshold\<close> as the request gave them, 8 and 0.7 when
  the request has none, and \<open>null\<close> for each of \<open>course\<close>, \<open>types\<close>,
  \<open>subtopic\<close> and \<open>assignment_type\<close> that the request does not have. The call is
  made whenever the query is truthy and the embedding call returns.
\<close>

theorem search_passes_through:
  "(\<forall>args. Rpc args \<in> set (snd (search_content e body)) \<longrightarrow>
      get_prop args (js ''match_limit'')
        = Inr (if opt_prop body (js ''top_k'') = Undefined then Num (Finite 8)
               else opt_prop body (js ''top_k''))
      \<and> get_prop args (js ''match_threshold'')
        = Inr (if opt_prop body (js ''threshold'') = Undefined then Num (Finite double_0_7)
               else opt_prop body (js ''threshold''))
      \<and> (opt_prop body (js ''course'') = Undefined \<longrightarrow>
            get_prop args (js ''match_course'') = Inr Null)
      \<and> (opt_prop body (js ''types'') = Undefined \<longrightarrow>
            get_prop args (js ''match_types'') = Inr Null)
      \<and> (opt_prop body (js ''subtopic'') = Undefined \<longrightarrow>
            get_prop args (js ''match_subtopic'') = Inr Null)
      \<and> (opt_prop body (js ''assignment_type'') = Undefined \<longrightarrow>
            get_prop args (js ''match_assignment_type'') = Inr Null))
   \<and> (truthy (opt_prop body (js ''query'')) \<and> embedText e (opt_prop body (js ''query'')) = Inr es
        \<longrightarrow> (\<exists>args. snd (search_content e body)
                    = [EmbeddingsCreate (embed_request (opt_prop body (js ''query''))), Rpc args]))"
proof (intro conjI allI impI)
  fix args
  assume a: "Rpc args \<in> set (snd (search_content e body))"
  then obtain es' where args: "args = search_args (js_index es' 0)
                       (opt_prop body (js ''course''))
                       (opt_prop body (js ''types''))
                       (opt_prop body (js ''subtopic''))
                       (opt_prop body (js ''assignment_type''))
                       (default_to (opt_prop body (js ''top_k'')) (Num (Finite 8)))
                       (default_to (opt_prop body (js ''threshold'')) (Num (Finite double_0_7)))"
    by (auto simp: search_content_def search_try_calls split: if_splits sum.splits)
  show "get_prop args (js ''match_limit'')
        = Inr (if opt_prop body (js ''top_k'') = Undefined then Num (Finite 8)
               else opt_prop body (js ''top_k''))"
    unfolding args by (simp add: search_args_props default_to_def)
  show "get_prop args (js ''match_threshold'')
        = Inr (if opt_prop body (js ''threshold'') = Undefined then Num (Finite double_0_7)
               else opt_prop body (js ''threshold''))"
    unfolding args by (simp add: search_args_props default_to_def)
  show "get_prop args (js ''match_course'') = Inr Null"
    if "opt_prop body (js ''course'') = Undefined"
    unfolding args using that by (simp add: search_args_props js_or_def)
  show "get_prop args (js ''match_types'') = Inr Null"
    if "opt_prop body (js ''types'') = Undefined"
    unfolding args using that by (simp add: search_args_props)
  show "get_prop args (js ''match_subtopic'') = Inr Null"
    if "opt_prop body (js ''subtopic'') = Undefined"
    unfolding args using that by (simp add: search_args_props js_or_def)
  show "get_prop args (js ''match_assignment_type'') = Inr Null"
    if "opt_prop body (js ''assignment_type'') = Undefined"
    unfolding args using that by (simp add: search_args_props js_or_def)
next
  assume "truthy (opt_prop body (js ''query'')) \<and> embedText e (opt_prop body (js ''query'')) = Inr es"
  then show "\<exists>args. snd (search_content e body)
                    = [EmbeddingsCreate (embed_request (opt_prop body (js ''query''))), Rpc args]"
    by (simp add: search_content_def search_try_calls)
qed

lemma embedText_env_ok: "embedText env_ok input = Inr [Arr [Num (Finite 1)]]"
  by (simp add: embedText_def env_ok_def map_prop_def js_def)

lemma search_body_fields:
  "opt_prop search_body (js ''query'') = Str (js ''loops'')"
  "opt_prop search_body (js ''course'') = Undefined"
  "opt_prop search_body (js ''types'') = Undefined"
  "opt_prop search_body (js ''subtopic'') = Undefined"
  "opt_prop search_body (js ''assignment_type'') = Undefined"
  "opt_prop search_body (js ''top_k'') = Undefined"
  "opt_prop search_body (js ''threshold'') = Undefined"
  by (simp_all add: search_body_def opt_prop_def js_def)

theorem search_passes_through_witness:
  "Rpc (search_args (Arr [Num (Finite 1)]) Undefined Undefined Undefined Undefined
          (Num (Finite 8)) (Num (Finite double_0_7)))
     \<in> set (snd (search_content env_ok search_body))
   \<and> opt_prop search_body (js ''course'') = Undefined
   \<and> opt_prop search_body (js ''types'') = Undefined
   \<and> opt_prop search_body (js ''subtopic'') = Undefined
   \<and> opt_prop search_body (js ''assignment_type'') = Undefined
   \<and> truthy (opt_prop search_body (js ''query''))
   \<and> embedText env_ok (opt_prop search_body (js ''query'')) = Inr [Arr [Num (Finite 1)]]
   \<and> get_prop (search_args (Arr [Num (Finite 1)]) Undefined Undefined Undefined Undefined
          (Num (Finite 8)) (Num (Finite double_0_7))) (js ''match_course'') = Inr Null
   \<and> (\<exists>args. snd (search_content env_ok search_body)
                    = [EmbeddingsCreate (embed_request (opt_prop search_body (js ''query''))),
                       Rpc args])"
proof -
  let ?args = "search_args (Arr [Num (Finite 1)]) Undefined Undefined Undefined Undefined
          (Num (Finite 8)) (Num (Finite double_0_7))"
  have m: "Rpc ?args \<in> set (snd (search_content env_ok search_body))"
    by (simp add: search_content_def search_try_calls search_body_fields embedText_env_ok
        js_index_def default_to_def)
  have q: "truthy (opt_prop search_body (js ''query''))
           \<and> embedText env_ok (opt_prop search_body (js ''query'')) = Inr [Arr [Num (Finite 1)]]"
    by (simp add: search_body_fields embedText_env_ok)
  note t = search_passes_through[of env_ok search_body "[Arr [Num (Finite 1)]]"]
  from t m search_body_fields(2) have "get_prop ?args (js ''match_course'') = Inr Null"
    by blast
  moreover from t q have "\<exists>args. snd (search_content env_ok search_body)
                    = [EmbeddingsCreate (embed_request (opt_prop search_body (js ''query''))),
                       Rpc args]"
    by blast
  ultimately show ?thesis using m q search_body_fields by blast
qed

section \<open>Degenerate filters\<close>












section \<open>Logged completions\<close>

lemma log_try_invalid:
  "body \<noteq> Undefined \<Longrightarrow> body \<noteq> Null \<Longrightarrow> \<not> valid_log body \<Longrightarrow>
     log_try e body = (Inr (error_response 400 ''Missing required fields''), [])"
  unfolding log_try_def by (auto simp: destructure_object valid_log_def Let_def)

lemma log_try_calls:
  "snd (log_try e body) =
     (if \<not> valid_log body then []
      else case embedText e (opt_prop body (js ''model_answer'')) of
             Inl err \<Rightarrow> [EmbeddingsCreate (embed_request (opt_prop body (js ''model_answer'')))]
           | Inr es \<Rightarrow>
               [EmbeddingsCreate (embed_request (opt_prop body (js ''model_answer''))),
                Insert (log_row body (js_index es 0))])"
proof (cases "body = Undefined \<or> body = Null")
  case True
  then show ?thesis by (auto simp: log_try_def destructure_absent valid_log_def)
next
  case False
  then have d: "destructure body = Inr (opt_prop body)" by (simp add: destructure_object)
  show ?thesis
  proof (cases "valid_log body")
    case False
    then show ?thesis using log_try_invalid[of body e] \<open>\<not> (body = Undefined \<or> body = Null)\<close>
      by simp
  next
    case True
    then have v: "truthy (opt_prop body (js ''course''))"
      "truthy (opt_prop body (js ''assignment_type''))"
      "truthy (opt_prop body (js ''model_answer''))" "truthy (opt_prop body (js ''outcome''))"
      by (simp_all add: valid_log_def)
    show ?thesis
      unfolding log_try_def d using True v
      by (simp add: Let_def log_row_def split: sum.splits option.splits)
  qed
qed

lemma completion_row_props:
  "get_prop (completion_row c ty s a op ma oc sc tf emb) (js ''type'') = Inr ty"
  "get_prop (completion_row c ty s a op ma oc sc tf emb) (js ''content'') = Inr ma"
  "get_prop (completion_row c ty s a op ma oc sc tf emb) (js ''chunk_index'') = Inr (Num (Finite 0))"
  "get_prop (completion_row c ty s a op ma oc sc tf emb) (js ''original_prompt'') = Inr op"
  "get_prop (completion_row c ty s a op ma oc sc tf emb) (js ''model_answer'') = Inr ma"
  "get_prop (completion_row c ty s a op ma oc sc tf emb) (js ''outcome'') = Inr oc"
  "get_prop (completion_row c ty s a op ma oc sc tf emb) (js ''score'') = Inr sc"
  "get_prop (completion_row c ty s a op ma oc sc tf emb) (js ''teacher_feedback'') = Inr tf"
  by (simp_all add: completion_row_def js_def)

lemma ingest_row_props:
  "get_prop (ingest_row c ty s a sn embs ci) (js ''content'') = Inr (Str (fst ci))"
  "get_prop (ingest_row c ty s a sn embs ci) (js ''original_prompt'') = Inr Undefined"
  "get_prop (ingest_row c ty s a sn embs ci) (js ''model_answer'') = Inr Undefined"
  "get_prop (ingest_row c ty s a sn embs ci) (js ''outcome'') = Inr Undefined"
  "get_prop (ingest_row c ty s a sn embs ci) (js ''score'') = Inr Undefined"
  "get_prop (ingest_row c ty s a sn embs ci) (js ''teacher_feedback'') = Inr Undefined"
  by (simp_all add: ingest_row_def js_def)

lemma log_insert_row:
  assumes "Insert row \<in> set (snd (log_completion_result e body))"
  shows "valid_log body \<and> (\<exists>emb. row = log_row body emb)"
  using assms
  by (auto simp: log_completion_result_def log_try_calls split: if_splits sum.splits)

lemma log_calls_ok:
  assumes "valid_log body" and "embedText e (opt_prop body (js ''model_answer'')) = Inr es"
  shows "snd (log_completion_result e body)
     = [EmbeddingsCreate (embed_request (opt_prop body (js ''model_answer''))),
        Insert (log_row body (js_index es 0))]"
  using assms by (simp add: log_completion_result_def log_try_calls)

text \<open>
  C4, as the code has it: a row reaches the store only when \<open>course\<close>,
  \<open>assignment_type\<close>, \<open>model_answer\<close> and \<open>outcome\<close> are all truthy, and then (when
  the embedding call returns) one row is inserted whose type is \<open>completion_good\<close>
  exactly when \<open>outcome\<close> is the string \<open>success\<close> and \<open>completion_bad\<close> for every
  other truthy outcome. A request whose \<open>outcome\<close> is falsy or missing is answered
  400 and nothing is embedded or stored.
\<close>

theorem log_outcome_type:
  "(\<forall>row. Insert row \<in> set (snd (log_completion_result e body)) \<longrightarrow>
      truthy (opt_prop body (js ''outcome''))
      \<and> get_prop row (js ''type'')
          = Inr (if opt_prop body (js ''outcome'') = Str (js ''success'')
                 then Str (js ''completion_good'') else Str (js ''completion_bad'')))
   \<and> (truthy (opt_prop body (js ''course'')) \<and> truthy (opt_prop body (js ''assignment_type''))
        \<and> truthy (opt_prop body (js ''model_answer'')) \<and> truthy (opt_prop body (js ''outcome''))
        \<and> embedText e (opt_prop body (js ''model_answer'')) = Inr es
      \<longrightarrow> (\<exists>row. snd (log_completion_result e body)
                   = [EmbeddingsCreate (embed_request (opt_prop body (js ''model_answer''))),
                      Insert row]))
   \<and> (body \<noteq> Undefined \<and> body \<noteq> Null \<and> \<not> truthy (opt_prop body (js ''outcome''))
      \<longrightarrow> log_completion_result e body
            = (error_response 400 ''Missing required fields'', []))"
proof (intro conjI allI impI)
  fix row
  assume "Insert row \<in> set (snd (log_completion_result e body))"
  then obtain emb where v: "valid_log body" and r: "row = log_row body emb"
    using log_insert_row by blast
  show "truthy (opt_prop body (js ''outcome''))" using v by (simp add: valid_log_def)
  show "get_prop row (js ''type'')
          = Inr (if opt_prop body (js ''outcome'') = Str (js ''success'')
                 then Str (js ''completion_good'') else Str (js ''completion_bad''))"
    unfolding r log_row_def by (rule completion_row_props)
next
  assume "truthy (opt_prop body (js ''course'')) \<and> truthy (opt_prop body (js ''assignment_type''))
        \<and> truthy (opt_prop body (js ''model_answer'')) \<and> truthy (opt_prop body (js ''outcome''))
        \<and> embedText e (opt_prop body (js ''model_answer'')) = Inr es"
  then have "valid_log body" "embedText e (opt_prop body (js ''model_answer'')) = Inr es"
    by (simp_all add: valid_log_def)
  then show "\<exists>row. snd (log_completion_result e body)
                   = [EmbeddingsCreate (embed_request (opt_prop body (js ''model_answer''))),
                      Insert row]"
    using log_calls_ok by blast
next
  assume "body \<noteq> Undefined \<and> body \<noteq> Null \<and> \<not> truthy (opt_prop body (js ''outcome''))"
  then have "log_try e body = (Inr (error_response 400 ''Missing required fields''), [])"
    by (intro log_try_invalid) (simp_all add: valid_log_def)
  then show "log_completion_result e body
            = (error_response 400 ''Missing required fields'', [])"
    by (simp add: log_completion_result_def catch_all_def)
qed

lemma log_body_fields:
  "opt_prop (log_body oc) (js ''course'') = Str (js ''math'')"
  "opt_prop (log_body oc) (js ''assignment_type'') = Str (js ''essay'')"
  "opt_prop (log_body oc) (js ''model_answer'') = Str (js ''an answer'')"
  "opt_prop (log_body oc) (js ''outcome'') = oc"
  "opt_prop (log_body oc) (js ''subtopic'') = Undefined"
  "opt_prop (log_body oc) (js ''original_prompt'') = Str (js ''a prompt'')"
  "opt_prop (log_body oc) (js ''score'') = Num (Finite 9)"
  "opt_prop (log_body oc) (js ''teacher_feedback'') = Str (js ''well done'')"
  by (simp_all add: log_body_def opt_prop_def js_def)

lemma log_body_run:
  assumes "truthy oc"
  shows "log_completion_result env_ok (log_body oc)
     = (Response 200 (Obj [(js ''success'', Bool True), (js ''id'', Num (Finite 7))]),
        [EmbeddingsCreate (embed_request (Str (js ''an answer''))),
         Insert (completion_row (Str (js ''math''))
                   (if oc = Str (js ''success'') then Str (js ''completion_good'')
                    else Str (js ''completion_bad''))
                   Undefined (Str (js ''essay'')) (Str (js ''a prompt'')) (Str (js ''an answer''))
                   oc (Num (Finite 9)) (Str (js ''well done'')) (Arr [Num (Finite 1)]))])"
proof -
  have d: "destructure (log_body oc) = Inr (opt_prop (log_body oc))"
    by (simp add: destructure_object log_body_def)
  have k: "kb_insert env_ok r
      = Some (Obj [(js ''data'', Arr [Obj [(js ''id'', Num (Finite 7))]]), (js ''error'', Null)])"
    for r by (simp add: env_ok_def)
  have g: "destructure (Obj [(js ''data'', Arr [Obj [(js ''id'', Num (Finite 7))]]),
                             (js ''error'', Null)])
      = Inr (opt_prop (Obj [(js ''data'', Arr [Obj [(js ''id'', Num (Finite 7))]]),
                             (js ''error'', Null)]))"
    by (simp add: destructure_object)
  have p: "opt_prop (Obj [(js ''data'', Arr [Obj [(js ''id'', Num (Finite 7))]]),
                             (js ''error'', Null)]) (js ''error'') = Null"
    "opt_prop (Obj [(js ''data'', Arr [Obj [(js ''id'', Num (Finite 7))]]),
                             (js ''error'', Null)]) (js ''data'')
       = Arr [Obj [(js ''id'', Num (Finite 7))]]"
    "opt_prop (Obj [(js ''id'', Num (Finite 7))]) (js ''id'') = Num (Finite 7)"
    by (simp_all add: opt_prop_def js_def)
  show ?thesis
    unfolding log_completion_result_def log_try_def d
    using assms
    by (simp add: Let_def log_body_fields embedText_env_ok k g p js_index_def catch_all_def)
qed

theorem log_outcome_type_witness:
  "Insert (completion_row (Str (js ''math'')) (Str (js ''completion_good'')) Undefined (Str (js ''essay'')) (Str (js ''a prompt'')) (Str (js ''an answer''))
                   (Str (js ''success'')) (Num (Finite 9)) (Str (js ''well done'')) (Arr [Num (Finite 1)]))
     \<in> set (snd (log_completion_result env_ok (log_body (Str (js ''success'')))))
   \<and> get_prop (completion_row (Str (js ''math'')) (Str (js ''completion_good'')) Undefined (Str (js ''essay'')) (Str (js ''a prompt'')) (Str (js ''an answer''))
                   (Str (js ''success'')) (Num (Finite 9)) (Str (js ''well done'')) (Arr [Num (Finite 1)])) (js ''type'')
       = Inr (Str (js ''completion_good''))
   \<and> truthy (opt_prop (log_body (Str (js ''success''))) (js ''course''))
   \<and> truthy (opt_prop (log_body (Str (js ''success''))) (js ''assignment_type''))
   \<and> truthy (opt_prop (log_body (Str (js ''success''))) (js ''model_answer''))
   \<and> truthy (opt_prop (log_body (Str (js ''success''))) (js ''outcome''))
   \<and> embedText env_ok (opt_prop (log_body (Str (js ''success''))) (js ''model_answer''))
       = Inr [Arr [Num (Finite 1)]]
   \<and> (\<exists>row. snd (log_completion_result env_ok (log_body (Str (js ''success''))))
         = [EmbeddingsCreate (embed_request
              (opt_prop (log_body (Str (js ''success''))) (js ''model_answer''))), Insert row])
   \<and> log_body Null \<noteq> Undefined \<and> log_body Null \<noteq> Null
   \<and> \<not> truthy (opt_prop (log_body Null) (js ''outcome''))
   \<and> log_completion_result env_ok (log_body Null)
       = (error_response 400 ''Missing required fields'', [])"
proof -
  let ?b = "log_body (Str (js ''success''))"
  let ?row = "completion_row (Str (js ''math'')) (Str (js ''completion_good'')) Undefined (Str (js ''essay'')) (Str (js ''a prompt'')) (Str (js ''an answer''))
                   (Str (js ''success'')) (Num (Finite 9)) (Str (js ''well done'')) (Arr [Num (Finite 1)])"
  have m: "Insert ?row \<in> set (snd (log_completion_result env_ok ?b))"
    by (simp add: log_body_run)
  have v: "truthy (opt_prop ?b (js ''course'')) \<and> truthy (opt_prop ?b (js ''assignment_type''))
        \<and> truthy (opt_prop ?b (js ''model_answer'')) \<and> truthy (opt_prop ?b (js ''outcome''))
        \<and> embedText env_ok (opt_prop ?b (js ''model_answer'')) = Inr [Arr [Num (Finite 1)]]"
    by (simp add: log_body_fields embedText_env_ok)
  have n: "log_body Null \<noteq> Undefined \<and> log_body Null \<noteq> Null
      \<and> \<not> truthy (opt_prop (log_body Null) (js ''outcome''))"
    by (simp add: log_body_fields) (simp add: log_body_def)
  have o: "opt_prop ?b (js ''outcome'') = Str (js ''success'')" by (simp add: log_body_fields)
  note t = log_outcome_type[of env_ok ?b "[Arr [Num (Finite 1)]]"]
  from t m have "get_prop ?row (js ''type'')
          = Inr (if opt_prop ?b (js ''outcome'') = Str (js ''success'')
                 then Str (js ''completion_good'') else Str (js ''completion_bad''))"
    by blast
  then have a: "get_prop ?row (js ''type'') = Inr (Str (js ''completion_good''))"
    unfolding o by simp
  from t v have b: "\<exists>row. snd (log_completion_result env_ok ?b)
         = [EmbeddingsCreate (embed_request (opt_prop ?b (js ''model_answer''))), Insert row]"
    by blast
  from log_outcome_type[of env_ok "log_body Null"] n
  have c: "log_completion_result env_ok (log_body Null)
       = (error_response 400 ''Missing required fields'', [])"
    by blast
  show ?thesis using m a v b n c by blast
qed

text \<open>
  C4 as written fails twice: for the falsy outcome \<open>false\<close> nothing is stored
  (the answer is 400), and the ambiguous outcome \<open>maybe\<close> passes validation and is
  stored as \<open>completion_bad\<close>.
\<close>

theorem log_outcome_counterexample:
  "log_completion_result env_ok (log_body (Bool False))
     = (Response 400 (Obj [(js ''error'', Str (js ''Missing required fields''))]), [])
   \<and> log_completion_result env_ok (log_body (Str (js ''maybe'')))
     = (Response 200 (Obj [(js ''success'', Bool True), (js ''id'', Num (Finite 7))]),
        [EmbeddingsCreate (embed_request (Str (js ''an answer''))),
         Insert (completion_row (Str (js ''math'')) (Str (js ''completion_bad'')) Undefined (Str (js ''essay'')) (Str (js ''a prompt'')) (Str (js ''an answer''))
                   (Str (js ''maybe'')) (Num (Finite 9)) (Str (js ''well done'')) (Arr [Num (Finite 1)]))])"
proof -
  have "log_try env_ok (log_body (Bool False))
      = (Inr (error_response 400 ''Missing required fields''), [])"
    by (intro log_try_invalid) (simp_all add: valid_log_def log_body_fields, simp_all add: log_body_def)
  then have "log_completion_result env_ok (log_body (Bool False))
     = (Response 400 (Obj [(js ''error'', Str (js ''Missing required fields''))]), [])"
    by (simp add: log_completion_result_def catch_all_def error_response_def)
  moreover have "Str (js ''maybe'') \<noteq> Str (js ''success'')" by (simp add: js_def)
  ultimately show ?thesis using log_body_run[of "Str (js ''maybe'')"] by simp
qed

text \<open>
  C10: the row that /log_completion_result inserts has \<open>model_answer\<close> itself as its
  \<open>content\<close>, 0 as its \<open>chunk_index\<close>, and carries \<open>original_prompt\<close>,
  \<open>model_answer\<close>, \<open>outcome\<close>, \<open>score\<close> and \<open>teacher_feedback\<close> of the request
  as fields of their own, fields that a row of /ingest_content does not have. The row is
  inserted whenever the request passes validation and the embedding call returns.
\<close>

theorem log_row_fields:
  "(\<forall>row. Insert row \<in> set (snd (log_completion_result e body)) \<longrightarrow>
      get_prop row (js ''content'') = Inr (opt_prop body (js ''model_answer''))
      \<and> get_prop row (js ''chunk_index'') = Inr (Num (Finite 0))
      \<and> get_prop row (js ''original_prompt'') = Inr (opt_prop body (js ''original_prompt''))
      \<and> get_prop row (js ''model_answer'') = Inr (opt_prop body (js ''model_answer''))
      \<and> get_prop row (js ''outcome'') = Inr (opt_prop body (js ''outcome''))
      \<and> get_prop row (js ''score'') = Inr (opt_prop body (js ''score''))
      \<and> get_prop row (js ''teacher_feedback'') = Inr (opt_prop body (js ''teacher_feedback'')))
   \<and> (truthy (opt_prop body (js ''course'')) \<and> truthy (opt_prop body (js ''assignment_type''))
        \<and> truthy (opt_prop body (js ''model_answer'')) \<and> truthy (opt_prop body (js ''outcome''))
        \<and> embedText e (opt_prop body (js ''model_answer'')) = Inr es
      \<longrightarrow> (\<exists>row. snd (log_completion_result e body)
                   = [EmbeddingsCreate (embed_request (opt_prop body (js ''model_answer''))),
                      Insert row]))
   \<and> get_prop (ingest_row c ty s a sn embs ci) (js ''original_prompt'') = Inr Undefined
   \<and> get_prop (ingest_row c ty s a sn embs ci) (js ''model_answer'') = Inr Undefined
   \<and> get_prop (ingest_row c ty s a sn embs ci) (js ''outcome'') = Inr Undefined
   \<and> get_prop (ingest_row c ty s a sn embs ci) (js ''score'') = Inr Undefined
   \<and> get_prop (ingest_row c ty s a sn embs ci) (js ''teacher_feedback'') = Inr Undefined"
proof (intro conjI allI impI)
  fix row
  assume "Insert row \<in> set (snd (log_completion_result e body))"
  then obtain emb where r: "row = log_row body emb"
    using log_insert_row by blast
  show "get_prop row (js ''content'') = Inr (opt_prop body (js ''model_answer''))"
    unfolding r log_row_def by (rule completion_row_props)
  show "get_prop row (js ''chunk_index'') = Inr (Num (Finite 0))"
    unfolding r log_row_def by (rule completion_row_props)
  show "get_prop row (js ''original_prompt'') = Inr (opt_prop body (js ''original_prompt''))"
    unfolding r log_row_def by (rule completion_row_props)
  show "get_prop row (js ''model_answer'') = Inr (opt_prop body (js ''model_answer''))"
    unfolding r log_row_def by (rule completion_row_props)
  show "get_prop row (js ''outcome'') = Inr (opt_prop body (js ''outcome''))"
    unfolding r log_row_def by (rule completion_row_props)
  show "get_prop row (js ''score'') = Inr (opt_prop body (js ''score''))"
    unfolding r log_row_def by (rule completion_row_props)
  show "get_prop row (js ''teacher_feedback'') = Inr (opt_prop body (js ''teacher_feedback''))"
    unfolding r log_row_def by (rule completion_row_props)
next
  assume "truthy (opt_prop body (js ''course'')) \<and> truthy (opt_prop body (js ''assignment_type''))
        \<and> truthy (opt_prop body (js ''model_answer'')) \<and> truthy (opt_prop body (js ''outcome''))
        \<and> embedText e (opt_prop body (js ''model_answer'')) = Inr es"
  then have "valid_log body" "embedText e (opt_prop body (js ''model_answer'')) = Inr es"
    by (simp_all add: valid_log_def)
  then show "\<exists>row. snd (log_completion_result e body)
                   = [EmbeddingsCreate (embed_request (opt_prop body (js ''model_answer''))),
                      Insert row]"
    using log_calls_ok by blast
qed (rule ingest_row_props)+

theorem log_row_fields_witness:
  "Insert (completion_row (Str (js ''math'')) (Str (js ''completion_bad'')) Undefined
             (Str (js ''essay'')) (Str (js ''a prompt'')) (Str (js ''an answer''))
             (Str (js ''failure'')) (Num (Finite 9)) (Str (js ''well done''))
             (Arr [Num (Finite 1)]))
     \<in> set (snd (log_completion_result env_ok (log_body (Str (js ''failure'')))))
   \<and> get_prop (completion_row (Str (js ''math'')) (Str (js ''completion_bad'')) Undefined
             (Str (js ''essay'')) (Str (js ''a prompt'')) (Str (js ''an answer''))
             (Str (js ''failure'')) (Num (Finite 9)) (Str (js ''well done''))
             (Arr [Num (Finite 1)])) (js ''content'')
       = Inr (Str (js ''an answer''))
   \<and> truthy (opt_prop (log_body (Str (js ''failure''))) (js ''course''))
   \<and> truthy (opt_prop (log_body (Str (js ''failure''))) (js ''assignment_type''))
   \<and> truthy (opt_prop (log_body (Str (js ''failure''))) (js ''model_answer''))
   \<and> truthy (opt_prop (log_body (Str (js ''failure''))) (js ''outcome''))
   \<and> embedText env_ok (opt_prop (log_body (Str (js ''failure''))) (js ''model_answer''))
       = Inr [Arr [Num (Finite 1)]]
   \<and> (\<exists>row. snd (log_completion_result env_ok (log_body (Str (js ''failure''))))
         = [EmbeddingsCreate (embed_request
              (opt_prop (log_body (Str (js ''failure''))) (js ''model_answer''))), Insert row])"
proof -
  let ?b = "log_body (Str (js ''failure''))"
  let ?row = "completion_row (Str (js ''math'')) (Str (js ''completion_bad'')) Undefined
             (Str (js ''essay'')) (Str (js ''a prompt'')) (Str (js ''an answer''))
             (Str (js ''failure'')) (Num (Finite 9)) (Str (js ''well done''))
             (Arr [Num (Finite 1)])"
  have ne: "Str (js ''failure'') \<noteq> Str (js ''success'')" by (simp add: js_def)
  have m: "Insert ?row \<in> set (snd (log_completion_result env_ok ?b))"
    using ne by (simp add: log_body_run)
  have v: "truthy (opt_prop ?b (js ''course'')) \<and> truthy (opt_prop ?b (js ''assignment_type''))
        \<and> truthy (opt_prop ?b (js ''model_answer'')) \<and> truthy (opt_prop ?b (js ''outcome''))
        \<and> embedText env_ok (opt_prop ?b (js ''model_answer'')) = Inr [Arr [Num (Finite 1)]]"
    by (simp add: log_body_fields embedText_env_ok)
  have o: "opt_prop ?b (js ''model_answer'') = Str (js ''an answer'')"
    by (simp add: log_body_fields)
  note t = log_row_fields[of env_ok ?b "[Arr [Num (Finite 1)]]"]
  from t m have "get_prop ?row (js ''content'') = Inr (opt_prop ?b (js ''model_answer''))"
    by blast
  then have a: "get_prop ?row (js ''content'') = Inr (Str (js ''an answer''))"
    unfolding o .
  from t v have b: "\<exists>row. snd (log_completion_result env_ok ?b)
         = [EmbeddingsCreate (embed_request (opt_prop ?b (js ''model_answer''))), Insert row]"
    by blast
  show ?thesis using m a v b by blast
qed

section \<open>Ingestion without content\<close>

lemma words_of_blank: "\<forall>c \<in> set t. is_ws c \<Longrightarrow> words_of t = []"
  by (simp add: words_of_eq_spec words_spec_Nil)

lemma chunkText_blank: "\<forall>c \<in> set t. is_ws c \<Longrightarrow> chunkText (Str t) profile = Some (Inr [])"
  by (simp add: chunkText_Str chunk_words_def words_of_blank)

lemma js_join_not_empty: "ws \<noteq> [] \<Longrightarrow> hd ws \<noteq> [] \<Longrightarrow> js_join sep ws \<noteq> []"
  by (cases "(sep, ws)" rule: js_join.cases) auto

lemma words_of_proper: "w \<in> set (words_of t) \<Longrightarrow> proper_word w"
  using words_spec_proper by (simp add: words_of_eq_spec)

lemma window_text_not_empty:
  assumes "0 \<le> fst w" "fst w < snd w" "snd w \<le> int (length (words_of t))"
  shows "window_text (words_of t) w \<noteq> []"
proof -
  let ?sl = "js_slice (words_of t) (fst w) (snd w)"
  have sl: "?sl = take (nat (snd w - fst w)) (drop (nat (fst w)) (words_of t))"
    using assms by (simp add: js_slice_inside)
  have "length ?sl = nat (snd w - fst w)" unfolding sl using assms by simp
  then have ne: "?sl \<noteq> []" using assms(2) by auto
  have "hd ?sl \<in> set (words_of t)"
    by (rule subsetD[OF set_js_slice hd_in_set[OF ne]])
  then have "proper_word (hd ?sl)" by (rule words_of_proper)
  then have "hd ?sl \<noteq> []" by (simp add: proper_word_def)
  then show ?thesis unfolding window_text_def using ne by (rule js_join_not_empty[rotated])
qed

lemma chunk_words_not_empty:
  assumes "chunk_words (getChunkConfig profile) (words_of t) = Some chunks" and "c \<in> set chunks"
  shows "c \<noteq> []"
proof -
  let ?cfg = "getChunkConfig profile" and ?w = "words_of t"
  consider "length ?w = 0" | "0 < length ?w" "int (length ?w) \<le> sizeWords ?cfg"
    | "sizeWords ?cfg < int (length ?w)" by linarith
  then show ?thesis
  proof cases
    case 1
    then show ?thesis using assms by (simp add: chunk_words_def)
  next
    case 2
    then have "chunks = [js_join (js '' '') ?w]" using assms(1) by (simp add: chunk_words_def)
    moreover have "?w \<noteq> []" using 2 by auto
    moreover from this have "hd ?w \<noteq> []"
      using words_of_proper[of "hd ?w" t] by (simp add: proper_word_def)
    ultimately show ?thesis using assms(2) js_join_not_empty[of ?w "js '' ''"] by simp
  next
    case 3
    obtain ws where ws: "windows_from ?cfg (int (length ?w)) 0 ws"
      and r: "chunk_words ?cfg ?w = Some (map (window_text ?w) ws)"
      using chunk_words_windows[OF getChunkConfig_bounds 3] by blast
    have pos: "(0::int) < int (length ?w)" using 3 getChunkConfig_bounds[of profile] by linarith
    obtain w where w: "w \<in> set ws" "c = window_text ?w w" using r assms by auto
    have "0 \<le> fst w \<and> fst w < snd w \<and> snd w \<le> int (length ?w)"
      using windows_from_range[OF getChunkConfig_bounds(2,1) ws _ pos w(1)] by simp
    then show ?thesis unfolding w(2) by (intro window_text_not_empty) simp_all
  qed
qed

lemma chunkText_not_empty:
  assumes "chunkText raw profile = Some (Inr chunks)" and "c \<in> set chunks"
  shows "c \<noteq> []"
proof (cases raw)
  case (Str t)
  then have "chunk_words (getChunkConfig profile) (words_of t) = Some chunks"
    using assms(1) by (auto simp: chunkText_Str)
  then show ?thesis using assms(2) by (rule chunk_words_not_empty)
qed (use assms(1) in \<open>simp_all add: chunkText_def chunk_with_def\<close>)

lemma ingest_try_no_content:
  assumes "truthy (opt_prop body (js ''raw_text''))" "truthy (opt_prop body (js ''course''))"
    "truthy (opt_prop body (js ''type''))"
    and "chunkText (opt_prop body (js ''raw_text''))
           (default_to (opt_prop body (js ''chunk_profile'')) (Str (js ''default''))) = Some (Inr [])"
  shows "ingest_try e body = Some (Inr (error_response 400 ''No content produced''), [])"
proof -
  have "body \<noteq> Undefined" "body \<noteq> Null" using assms(1) by auto
  then have d: "destructure body = Inr (opt_prop body)" by (simp add: destructure_object)
  show ?thesis unfolding ingest_try_def d using assms by (simp add: Let_def)
qed

lemma ingest_try_calls:
  assumes d: "destructure body = Inr (opt_prop body)"
    and g: "truthy (opt_prop body (js ''raw_text''))" "truthy (opt_prop body (js ''course''))"
      "truthy (opt_prop body (js ''type''))"
    and c: "chunkText (opt_prop body (js ''raw_text''))
           (default_to (opt_prop body (js ''chunk_profile'')) (Str (js ''default'')))
             = Some (Inr chunks)"
  shows "map_option snd (ingest_try e body) =
     Some (if chunks = [] then []
           else case embedText e (Arr (map Str chunks)) of
                  Inl err \<Rightarrow> [EmbeddingsCreate (embed_request (Arr (map Str chunks)))]
                | Inr embs \<Rightarrow>
                    [EmbeddingsCreate (embed_request (Arr (map Str chunks))),
                     Insert (Arr (map (ingest_row (opt_prop body (js ''course''))
                                         (opt_prop body (js ''type''))
                                         (opt_prop body (js ''subtopic''))
                                         (opt_prop body (js ''assignment_type''))
                                         (opt_prop body (js ''source_name'')) embs)
                                    (zip chunks [0 ..< length chunks])))])"
  unfolding ingest_try_def d using g c
  by (simp add: Let_def split: sum.splits option.splits)

lemma ingest_try_quiet:
  assumes "\<not> (truthy (opt_prop body (js ''raw_text'')) \<and> truthy (opt_prop body (js ''course''))
             \<and> truthy (opt_prop body (js ''type'')))
           \<or> (\<forall>chunks. chunkText (opt_prop body (js ''raw_text''))
                 (default_to (opt_prop body (js ''chunk_profile'')) (Str (js ''default'')))
               \<noteq> Some (Inr chunks))"
  shows "map_option snd (ingest_try e body) \<in> {None, Some []}"
proof (cases "body = Undefined \<or> body = Null")
  case True
  then have "destructure body = Inl TypeError" by (rule destructure_absent)
  then show ?thesis by (simp add: ingest_try_def)
next
  case False
  then have d: "destructure body = Inr (opt_prop body)" by (simp add: destructure_object)
  show ?thesis
  proof (cases "truthy (opt_prop body (js ''raw_text'')) \<and> truthy (opt_prop body (js ''course''))
             \<and> truthy (opt_prop body (js ''type''))")
    case False
    then show ?thesis unfolding ingest_try_def d by (auto simp: Let_def)
  next
    case True
    then have n: "\<forall>chunks. chunkText (opt_prop body (js ''raw_text''))
                 (default_to (opt_prop body (js ''chunk_profile'')) (Str (js ''default'')))
               \<noteq> Some (Inr chunks)" using assms by blast
    show ?thesis
    proof (cases "chunkText (opt_prop body (js ''raw_text''))
                 (default_to (opt_prop body (js ''chunk_profile'')) (Str (js ''default'')))")
      case None
      then show ?thesis unfolding ingest_try_def d using True by (simp add: Let_def)
    next
      case (Some x)
      then obtain err where "x = Inl err" using n by (cases x) auto
      then show ?thesis unfolding ingest_try_def d using True Some by (simp add: Let_def)
    qed
  qed
qed

lemma ingest_try_insert:
  assumes "ingest_try e body = Some (r, calls)" and "Insert rows \<in> set calls"
  shows "\<exists>chunks f. chunkText (opt_prop body (js ''raw_text''))
           (default_to (opt_prop body (js ''chunk_profile'')) (Str (js ''default'')))
             = Some (Inr chunks)
         \<and> chunks \<noteq> []
         \<and> rows = Arr (map f (zip chunks [0 ..< length chunks]))
         \<and> (\<forall>ci. get_prop (f ci) (js ''content'') = Inr (Str (fst ci)))"
proof -
  have s: "map_option snd (ingest_try e body) = Some calls" using assms(1) by simp
  have ne: "calls \<noteq> []" using assms(2) by auto
  have g: "truthy (opt_prop body (js ''raw_text''))" "truthy (opt_prop body (js ''course''))"
      "truthy (opt_prop body (js ''type''))"
    using ingest_try_quiet[of body e] s ne by auto
  obtain chunks where c: "chunkText (opt_prop body (js ''raw_text''))
           (default_to (opt_prop body (js ''chunk_profile'')) (Str (js ''default'')))
             = Some (Inr chunks)"
    using ingest_try_quiet[of body e] s ne by auto
  have "body \<noteq> Undefined" "body \<noteq> Null" using g(1) by auto
  then have d: "destructure body = Inr (opt_prop body)" by (simp add: destructure_object)
  note k = ingest_try_calls[OF d g c, of e, unfolded s]
  have cne: "chunks \<noteq> []" using k ne by (auto split: if_splits)
  obtain embs where "rows = Arr (map (ingest_row (opt_prop body (js ''course''))
                                         (opt_prop body (js ''type''))
                                         (opt_prop body (js ''subtopic''))
                                         (opt_prop body (js ''assignment_type''))
                                         (opt_prop body (js ''source_name'')) embs)
                                    (zip chunks [0 ..< length chunks]))"
    using k cne assms(2) by (cases "embedText e (Arr (map Str chunks))") auto
  then show ?thesis using c cne ingest_row_props(1) by blast
qed

text \<open>
  C6: \<open>chunkText\<close> returns no chunk for an empty or whitespace-only text. A request to
  /ingest_content whose \<open>raw_text\<close>, \<open>course\<close> and \<open>type\<close> pass the
  required-field check and whose text gives no chunk is answered 400
  \<open>No content produced\<close> with no call to the embedding provider or the store. Every
  insert the handler makes carries at least one row, and the content of each row is a
  non-empty string.
\<close>

theorem ingest_no_content:
  "((\<forall>c \<in> set t. is_ws c) \<longrightarrow> chunkText (Str t) profile = Some (Inr []))
   \<and> (truthy (opt_prop body (js ''raw_text'')) \<and> truthy (opt_prop body (js ''course''))
        \<and> truthy (opt_prop body (js ''type''))
        \<and> chunkText (opt_prop body (js ''raw_text''))
             (default_to (opt_prop body (js ''chunk_profile'')) (Str (js ''default'')))
            = Some (Inr [])
      \<longrightarrow> ingest_content e body = Some (error_response 400 ''No content produced'', []))
   \<and> (\<forall>resp calls rows.
         ingest_content e body = Some (resp, calls) \<and> Insert rows \<in> set calls \<longrightarrow>
           (\<exists>rs. rows = Arr rs \<and> rs \<noteq> []
              \<and> (\<forall>r \<in> set rs. \<exists>s. get_prop r (js ''content'') = Inr (Str s) \<and> s \<noteq> [])))"
proof (intro conjI allI impI)
  assume "\<forall>c \<in> set t. is_ws c"
  then show "chunkText (Str t) profile = Some (Inr [])" by (rule chunkText_blank)
next
  assume a: "truthy (opt_prop body (js ''raw_text'')) \<and> truthy (opt_prop body (js ''course''))
        \<and> truthy (opt_prop body (js ''type''))
        \<and> chunkText (opt_prop body (js ''raw_text''))
             (default_to (opt_prop body (js ''chunk_profile'')) (Str (js ''default'')))
            = Some (Inr [])"
  have "ingest_try e body = Some (Inr (error_response 400 ''No content produced''), [])"
    using a by (intro ingest_try_no_content) simp_all
  then show "ingest_content e body = Some (error_response 400 ''No content produced'', [])"
    by (simp add: ingest_content_def catch_all_def)
next
  fix resp calls rows
  assume a: "ingest_content e body = Some (resp, calls) \<and> Insert rows \<in> set calls"
  then obtain x where x: "ingest_try e body = Some x" "catch_all x = (resp, calls)"
    by (auto simp: ingest_content_def)
  have "snd x = calls" using x(2) snd_catch_all[of x] by simp
  then have t: "ingest_try e body = Some (fst x, calls)" using x(1) by (cases x) simp
  obtain chunks f where c: "chunkText (opt_prop body (js ''raw_text''))
           (default_to (opt_prop body (js ''chunk_profile'')) (Str (js ''default'')))
             = Some (Inr chunks)"
    and ne: "chunks \<noteq> []"
    and rows: "rows = Arr (map f (zip chunks [0 ..< length chunks]))"
    and f: "\<forall>ci. get_prop (f ci) (js ''content'') = Inr (Str (fst ci))"
    using ingest_try_insert[OF t] a by blast
  let ?rs = "map f (zip chunks [0 ..< length chunks])"
  have "length ?rs = length chunks" by simp
  then have rne: "?rs \<noteq> []" using ne by auto
  have "\<exists>s. get_prop r (js ''content'') = Inr (Str s) \<and> s \<noteq> []" if "r \<in> set ?rs" for r
  proof -
    have "r \<in> f ` set (zip chunks [0 ..< length chunks])" using that by simp
    then obtain ci where ci: "r = f ci" "ci \<in> set (zip chunks [0 ..< length chunks])"
      by (rule imageE)
    have "(fst ci, snd ci) \<in> set (zip chunks [0 ..< length chunks])" using ci(2) by simp
    then have "fst ci \<in> set chunks" by (rule set_zip_leftD)
    then have "fst ci \<noteq> []" by (rule chunkText_not_empty[OF c])
    then show ?thesis using f ci(1) by blast
  qed
  then show "\<exists>rs. rows = Arr rs \<and> rs \<noteq> []
              \<and> (\<forall>r \<in> set rs. \<exists>s. get_prop r (js ''content'') = Inr (Str s) \<and> s \<noteq> [])"
    using rows rne by blast
qed

lemma ingest_body_fields:
  "opt_prop (ingest_body raw) (js ''course'') = Str (js ''math'')"
  "opt_prop (ingest_body raw) (js ''type'') = Str (js ''resource'')"
  "opt_prop (ingest_body raw) (js ''raw_text'') = raw"
  "opt_prop (ingest_body raw) (js ''subtopic'') = Undefined"
  "opt_prop (ingest_body raw) (js ''assignment_type'') = Undefined"
  "opt_prop (ingest_body raw) (js ''chunk_profile'') = Undefined"
  "opt_prop (ingest_body raw) (js ''source_name'') = Undefined"
  by (simp_all add: ingest_body_def opt_prop_def js_def)

lemma chunkText_to_be:
  "chunkText (Str (js ''to be'')) (Str (js ''default'')) = Some (Inr [js ''to be''])"
  by (simp add: chunkText_def chunk_with_def chunk_words_def getChunkConfig_def default_to_def
      words_of_def split_ws_def js_def is_ws_def)

lemma ingest_body_run:
  "ingest_content env_ok (ingest_body (Str (js ''to be'')))
     = Some (Response 200 (Obj [(js ''success'', Bool True),
                                (js ''chunks_stored'', Num (Finite 1)),
                                (js ''ids'', Arr [Num (Finite 7)])]),
             [EmbeddingsCreate (embed_request (Arr [Str (js ''to be'')])),
              Insert (Arr [ingest_row (Str (js ''math'')) (Str (js ''resource'')) Undefined
                             Undefined Undefined [Arr [Num (Finite 1)]] (js ''to be'', 0)])])"
proof -
  have d: "destructure (ingest_body (Str (js ''to be'')))
             = Inr (opt_prop (ingest_body (Str (js ''to be''))))"
    by (simp add: destructure_object ingest_body_def)
  have k: "kb_insert env_ok r
      = Some (Obj [(js ''data'', Arr [Obj [(js ''id'', Num (Finite 7))]]), (js ''error'', Null)])"
    for r by (simp add: env_ok_def)
  have g: "destructure (Obj [(js ''data'', Arr [Obj [(js ''id'', Num (Finite 7))]]),
                             (js ''error'', Null)])
      = Inr (opt_prop (Obj [(js ''data'', Arr [Obj [(js ''id'', Num (Finite 7))]]),
                             (js ''error'', Null)]))"
    by (simp add: destructure_object)
  have p: "opt_prop (Obj [(js ''data'', Arr [Obj [(js ''id'', Num (Finite 7))]]),
                             (js ''error'', Null)]) (js ''error'') = Null"
    "opt_prop (Obj [(js ''data'', Arr [Obj [(js ''id'', Num (Finite 7))]]),
                             (js ''error'', Null)]) (js ''data'')
       = Arr [Obj [(js ''id'', Num (Finite 7))]]"
    "map_prop (Arr [Obj [(js ''id'', Num (Finite 7))]]) (js ''id'') = Inr [Num (Finite 7)]"
    by (simp_all add: opt_prop_def map_prop_def js_def)
  have "ingest_try env_ok (ingest_body (Str (js ''to be'')))
     = Some (Inr (Response 200 (Obj [(js ''success'', Bool True),
                                (js ''chunks_stored'', Num (Finite 1)),
                                (js ''ids'', Arr [Num (Finite 7)])])),
             [EmbeddingsCreate (embed_request (Arr [Str (js ''to be'')])),
              Insert (Arr [ingest_row (Str (js ''math'')) (Str (js ''resource'')) Undefined
                             Undefined Undefined [Arr [Num (Finite 1)]] (js ''to be'', 0)])])"
    unfolding ingest_try_def d
    by (simp add: Let_def ingest_body_fields default_to_def chunkText_to_be embedText_env_ok
        k g p)
  then show ?thesis by (simp add: ingest_content_def catch_all_def)
qed

theorem ingest_no_content_witness:
  "list_all is_ws (js ''   '')
   \<and> chunkText (Str (js ''   '')) (Str (js ''default'')) = Some (Inr [])
   \<and> truthy (opt_prop (ingest_body (Str (js ''   ''))) (js ''raw_text''))
   \<and> truthy (opt_prop (ingest_body (Str (js ''   ''))) (js ''course''))
   \<and> truthy (opt_prop (ingest_body (Str (js ''   ''))) (js ''type''))
   \<and> ingest_content env_ok (ingest_body (Str (js ''   '')))
       = Some (error_response 400 ''No content produced'', [])
   \<and> Insert (Arr [ingest_row (Str (js ''math'')) (Str (js ''resource'')) Undefined
                    Undefined Undefined [Arr [Num (Finite 1)]] (js ''to be'', 0)])
       \<in> set (snd (the (ingest_content env_ok (ingest_body (Str (js ''to be''))))))
   \<and> (\<exists>s. get_prop (ingest_row (Str (js ''math'')) (Str (js ''resource'')) Undefined
                    Undefined Undefined [Arr [Num (Finite 1)]] (js ''to be'', 0))
               (js ''content'') = Inr (Str s) \<and> s \<noteq> [])"
proof -
  let ?blank = "ingest_body (Str (js ''   ''))"
  let ?row = "ingest_row (Str (js ''math'')) (Str (js ''resource'')) Undefined
                    Undefined Undefined [Arr [Num (Finite 1)]] (js ''to be'', 0)"
  have w: "\<forall>c \<in> set (js ''   ''). is_ws c" by (simp add: js_def is_ws_def)
  note t1 = ingest_no_content[of "js ''   ''" "Str (js ''default'')" ?blank env_ok]
  from t1 w have c: "chunkText (Str (js ''   '')) (Str (js ''default'')) = Some (Inr [])"
    by blast
  have v: "truthy (opt_prop ?blank (js ''raw_text''))" "truthy (opt_prop ?blank (js ''course''))"
    "truthy (opt_prop ?blank (js ''type''))"
    by (simp_all add: ingest_body_fields)
  have c': "chunkText (opt_prop ?blank (js ''raw_text''))
             (default_to (opt_prop ?blank (js ''chunk_profile'')) (Str (js ''default'')))
            = Some (Inr [])"
    using c by (simp add: ingest_body_fields default_to_def)
  from t1 v c' have r: "ingest_content env_ok ?blank
       = Some (error_response 400 ''No content produced'', [])"
    by blast
  have m: "Insert (Arr [?row])
       \<in> set (snd (the (ingest_content env_ok (ingest_body (Str (js ''to be''))))))"
    by (simp add: ingest_body_run)
  note t2 = ingest_no_content[of _ _ "ingest_body (Str (js ''to be''))" env_ok]
  have "\<exists>rs. Arr [?row] = Arr rs \<and> rs \<noteq> []
              \<and> (\<forall>r \<in> set rs. \<exists>s. get_prop r (js ''content'') = Inr (Str s) \<and> s \<noteq> [])"
    using t2 ingest_body_run by (simp del: get_prop.simps)
  then have s: "\<exists>s. get_prop ?row (js ''content'') = Inr (Str s) \<and> s \<noteq> []"
    by auto
  have l: "list_all is_ws (js ''   '')" using w by (simp only: list_all_iff)
  show ?thesis using l c v r m s by blast
qed

end
